theory Spec2Isabelle
  imports Complex_Main
begin

section \<open>Lap time simulation engine: data model\<close>

text \<open>
  The engine computes with C++ \<open>double\<close>. The embedding reads every \<open>double\<close> as a
  real number: rounding, overflow to infinity and NaN are outside the model.
  \<open>std::sqrt\<close> is \<^const>\<open>sqrt\<close> and \<open>std::pow\<close> is \<^const>\<open>powr\<close>, both only used
  at arguments where the C++ function and the HOL function agree on the reals
  (\<open>sqrt\<close> at non-negative arguments, \<open>powr\<close> at a positive base).
\<close>

subsection \<open>Vehicle parameters (VehicleParams.h)\<close>

record AeroParams =
  Cl :: real
  Cd :: real
  frontal_area :: real
  air_density :: real

record TireParams =
  mu_x :: real
  mu_y :: real
  load_sensitivity :: real
  tire_radius :: real

text \<open>
  \<open>engine_torque_curve\<close> is a \<open>std::map<double, double>\<close>: the list holds its entries
  in iteration order, that is by strictly increasing key.
\<close>

record PowertrainParams =
  engine_torque_curve :: "(real \<times> real) list"
  gear_ratios :: "real list"
  final_drive_ratio :: real
  drivetrain_efficiency :: real
  max_rpm :: real
  min_rpm :: real
  shift_time :: real

record MassParams =
  mass :: real
  cog_height :: real
  wheelbase :: real
  weight_distribution :: real

record BrakeParams =
  max_brake_force :: real
  brake_bias :: real

text \<open>The parameter groups of class \<open>VehicleParams\<close>; the group \<open>mass\<close> is \<open>mass_params\<close> here.\<close>

record VehicleParams =
  mass_params :: MassParams
  aero :: AeroParams
  tire :: TireParams
  powertrain :: PowertrainParams
  brake :: BrakeParams

definition GRAVITY :: real where
  "GRAVITY = 9.81"

text \<open>The literal that the sources use for \<open>PI\<close>.\<close>

definition PI :: real where
  "PI = 3.14159265358979323846"

text \<open>The parameter structs' default constructors.\<close>

definition default_AeroParams :: AeroParams where
  "default_AeroParams = \<lparr>Cl = -3.0, Cd = 0.8, frontal_area = 1.5, air_density = 1.225\<rparr>"

definition default_TireParams :: TireParams where
  "default_TireParams = \<lparr>mu_x = 1.6, mu_y = 1.8, load_sensitivity = 0.9, tire_radius = 0.3\<rparr>"

definition default_PowertrainParams :: PowertrainParams where
  "default_PowertrainParams =
     \<lparr>engine_torque_curve = [], gear_ratios = [], final_drive_ratio = 3.5,
      drivetrain_efficiency = 0.95, max_rpm = 15000, min_rpm = 4000, shift_time = 0.05\<rparr>"

definition default_MassParams :: MassParams where
  "default_MassParams = \<lparr>mass = 800, cog_height = 0.3, wheelbase = 2.5, weight_distribution = 0.45\<rparr>"

definition default_BrakeParams :: BrakeParams where
  "default_BrakeParams = \<lparr>max_brake_force = 20000, brake_bias = 0.6\<rparr>"

text \<open>\<open>std::map::upper_bound\<close>: the position of the first entry whose key is greater than \<open>k\<close>.\<close>

fun upper_bound :: "(real \<times> real) list \<Rightarrow> real \<Rightarrow> nat" where
  "upper_bound [] k = 0"
| "upper_bound (e # es) k = (if k < fst e then 0 else Suc (upper_bound es k))"

definition getTorqueAt :: "PowertrainParams \<Rightarrow> real \<Rightarrow> real" where
  "getTorqueAt p rpm0 =
     (let c = engine_torque_curve p in
      if c = [] then 0
      else let rpm = max 0 rpm0 in
        if rpm \<le> fst (hd c) then snd (hd c)
        else if rpm \<ge> fst (last c) then snd (last c)
        else let upper = upper_bound c rpm;
                 lower = upper - 1;
                 rpm1 = fst (c ! lower); torque1 = snd (c ! lower);
                 rpm2 = fst (c ! upper); torque2 = snd (c ! upper);
                 t = (rpm - rpm1) / (rpm2 - rpm1)
             in torque1 + t * (torque2 - torque1))"

definition validate :: "VehicleParams \<Rightarrow> bool" where
  "validate vp =
     (if mass (mass_params vp) \<le> 0 then False
      else if cog_height (mass_params vp) < 0 then False
      else if wheelbase (mass_params vp) \<le> 0 then False
      else if weight_distribution (mass_params vp) < 0 \<or> weight_distribution (mass_params vp) > 1 then False
      else if frontal_area (aero vp) \<le> 0 then False
      else if air_density (aero vp) \<le> 0 then False
      else if mu_x (tire vp) \<le> 0 \<or> mu_y (tire vp) \<le> 0 then False
      else if tire_radius (tire vp) \<le> 0 then False
      else if load_sensitivity (tire vp) < 0 \<or> load_sensitivity (tire vp) > 1 then False
      else if engine_torque_curve (powertrain vp) = [] then False
      else if gear_ratios (powertrain vp) = [] then False
      else if final_drive_ratio (powertrain vp) \<le> 0 then False
      else if drivetrain_efficiency (powertrain vp) \<le> 0 \<or> drivetrain_efficiency (powertrain vp) > 1 then False
      else if max_brake_force (brake vp) \<le> 0 then False
      else if brake_bias (brake vp) < 0 \<or> brake_bias (brake vp) > 1 then False
      else True)"

subsection \<open>Aerodynamics (AerodynamicsModel.cpp)\<close>

definition getAeroCoefficient :: "AeroParams \<Rightarrow> real" where
  "getAeroCoefficient a = 0.5 * air_density a * frontal_area a"

definition getDragForce :: "AeroParams \<Rightarrow> real \<Rightarrow> real" where
  "getDragForce a v = (let v_squared = v * v in getAeroCoefficient a * Cd a * v_squared)"

definition getDownforce :: "AeroParams \<Rightarrow> real \<Rightarrow> real" where
  "getDownforce a v = (let v_squared = v * v in - getAeroCoefficient a * Cl a * v_squared)"

definition getTotalVerticalLoad :: "AeroParams \<Rightarrow> real \<Rightarrow> real \<Rightarrow> real \<Rightarrow> real" where
  "getTotalVerticalLoad a v m g = (let weight = m * g; downforce = getDownforce a v in weight + downforce)"

subsection \<open>Tires (TireModel.cpp)\<close>

definition applyLoadSensitivity :: "TireParams \<Rightarrow> real \<Rightarrow> real \<Rightarrow> real" where
  "applyLoadSensitivity tp Fz base_mu =
     (let Fz_reference = 2000 in
      if Fz \<le> 0 then 0
      else let load_ratio = Fz / Fz_reference;
               exponent = load_sensitivity tp - 1
           in base_mu * (load_ratio powr exponent))"

definition getEffectiveMu :: "TireParams \<Rightarrow> real \<Rightarrow> real \<Rightarrow> real" where
  "getEffectiveMu tp Fz base_mu = applyLoadSensitivity tp Fz base_mu"

definition getMaxTotalForce :: "TireParams \<Rightarrow> real \<Rightarrow> real" where
  "getMaxTotalForce tp Fz =
     (let mu_avg = (mu_x tp + mu_y tp) / 2;
          mu_eff = getEffectiveMu tp Fz mu_avg
      in mu_eff * Fz)"

definition getAvailableLongitudinalForce :: "TireParams \<Rightarrow> real \<Rightarrow> real \<Rightarrow> real" where
  "getAvailableLongitudinalForce tp Fz Fy_current =
     (let F_max = getMaxTotalForce tp Fz;
          Fy_squared = Fy_current * Fy_current;
          F_max_squared = F_max * F_max
      in if Fy_squared \<ge> F_max_squared then 0
         else sqrt (F_max_squared - Fy_squared))"

definition isWithinFrictionCircle :: "TireParams \<Rightarrow> real \<Rightarrow> real \<Rightarrow> real \<Rightarrow> bool" where
  "isWithinFrictionCircle tp Fx Fy Fz =
     (let F_max = getMaxTotalForce tp Fz;
          F_combined = sqrt (Fx * Fx + Fy * Fy)
      in F_combined \<le> F_max)"

subsection \<open>Powertrain (PowertrainModel.cpp)\<close>

datatype error = InvalidArgument | RuntimeError | OutOfRange | UndefinedBehaviour

record PowertrainModel =
  params :: PowertrainParams
  pm_tire_radius :: real

text \<open>The constructor throws \<open>std::invalid_argument\<close> on a non-positive tire radius.\<close>

definition new_PowertrainModel :: "PowertrainParams \<Rightarrow> real \<Rightarrow> error + PowertrainModel" where
  "new_PowertrainModel p r =
     (if r \<le> 0 then Inl InvalidArgument else Inr \<lparr>params = p, pm_tire_radius = r\<rparr>)"

text \<open>Gears are C++ \<open>int\<close>; the gear count is read as an integer without wrap-around.\<close>

definition isValidGear :: "PowertrainModel \<Rightarrow> int \<Rightarrow> bool" where
  "isValidGear pm gear = (gear \<ge> 1 \<and> gear \<le> int (length (gear_ratios (params pm))))"

definition getTotalGearRatio :: "PowertrainModel \<Rightarrow> int \<Rightarrow> real" where
  "getTotalGearRatio pm gear =
     (if \<not> isValidGear pm gear then 0
      else let gear_index = nat (gear - 1)
           in gear_ratios (params pm) ! gear_index * final_drive_ratio (params pm))"

definition getRPM :: "PowertrainModel \<Rightarrow> real \<Rightarrow> int \<Rightarrow> real" where
  "getRPM pm v gear =
     (if \<not> isValidGear pm gear then 0
      else let wheel_angular_velocity = v / pm_tire_radius pm;
               total_ratio = getTotalGearRatio pm gear;
               engine_angular_velocity = wheel_angular_velocity * total_ratio
           in engine_angular_velocity * 60 / (2 * PI))"

definition getEngineTorque :: "PowertrainModel \<Rightarrow> real \<Rightarrow> real" where
  "getEngineTorque pm rpm = getTorqueAt (params pm) rpm"

definition getWheelForce :: "PowertrainModel \<Rightarrow> real \<Rightarrow> int \<Rightarrow> real" where
  "getWheelForce pm v gear =
     (if \<not> isValidGear pm gear \<or> v \<le> 0 then 0
      else let rpm = getRPM pm v gear in
        if rpm < min_rpm (params pm) \<or> rpm > max_rpm (params pm) then 0
        else let engine_torque = getEngineTorque pm rpm;
                 total_ratio = getTotalGearRatio pm gear;
                 wheel_torque = engine_torque * total_ratio * drivetrain_efficiency (params pm)
             in wheel_torque / pm_tire_radius pm)"

text \<open>The loop over the gears of \<open>getMaxWheelForce\<close>, \<open>i\<close> running over the gear indices.\<close>

definition max_force_loop :: "PowertrainModel \<Rightarrow> real \<Rightarrow> nat list \<Rightarrow> real \<Rightarrow> real" where
  "max_force_loop pm v is max_force0 =
     fold (\<lambda>i max_force. let gear = int (i + 1); force = getWheelForce pm v gear
                          in max max_force force) is max_force0"

definition getMaxWheelForce :: "PowertrainModel \<Rightarrow> real \<Rightarrow> real" where
  "getMaxWheelForce pm v =
     (if v \<le> 0 then getWheelForce pm 0.01 1
      else max_force_loop pm v [0..<length (gear_ratios (params pm))] 0)"

subsection \<open>Lap result (SimulationState.h, SimulationState.cpp)\<close>

record SimulationState =
  st_s :: real
  st_n :: real
  st_x :: real
  st_y :: real
  st_z :: real
  st_v :: real
  st_v_kmh :: real
  st_ax :: real
  st_ay :: real
  st_az :: real
  st_gx :: real
  st_gy :: real
  st_gz :: real
  st_g_total :: real
  st_throttle :: real
  st_brake :: real
  st_steering_angle :: real
  st_gear :: int
  st_rpm :: real
  st_engine_torque :: real
  st_wheel_force :: real
  st_drag_force :: real
  st_downforce :: real
  st_tire_force_x :: real
  st_tire_force_y :: real
  st_vertical_load :: real
  st_curvature :: real
  st_radius :: real
  st_banking_angle :: real
  st_timestamp :: real

record LapResult =
  states :: "SimulationState list"
  lr_lap_time :: real

definition getAverageSpeed :: "LapResult \<Rightarrow> real" where
  "getAverageSpeed r =
     (if states r = [] \<or> lr_lap_time r \<le> 0 then 0
      else if states r \<noteq> [] then
        (let total_distance = st_s (last (states r)) in total_distance / lr_lap_time r)
      else 0)"

subsection \<open>GGV diagram (GGVGenerator.h, GGVGenerator.cpp)\<close>

record GGVPoint =
  velocity :: real
  ay_lateral :: real
  ax_max_accel :: real
  ax_max_brake :: real

text \<open>
  The generator copies the vehicle in its constructor and builds its aerodynamics, tire
  and powertrain models from that copy; they are never reassigned, so the model reads
  them off \<open>ggv_vehicle\<close>.
\<close>

record GGVGenerator =
  ggv_vehicle :: VehicleParams
  ggv_points :: "GGVPoint list"
  generated :: bool
  v_min :: real
  v_max :: real
  v_step :: real
  ay_min :: real
  ay_max :: real
  ay_step :: real

definition aero_model :: "GGVGenerator \<Rightarrow> AeroParams" where
  "aero_model G = aero (ggv_vehicle G)"

definition tire_model :: "GGVGenerator \<Rightarrow> TireParams" where
  "tire_model G = tire (ggv_vehicle G)"

definition powertrain_model :: "GGVGenerator \<Rightarrow> PowertrainModel" where
  "powertrain_model G =
     \<lparr>params = powertrain (ggv_vehicle G), pm_tire_radius = tire_radius (tire (ggv_vehicle G))\<rparr>"

definition new_GGVGenerator :: "VehicleParams \<Rightarrow> error + GGVGenerator" where
  "new_GGVGenerator vp =
     (case new_PowertrainModel (powertrain vp) (tire_radius (tire vp)) of
        Inl e \<Rightarrow> Inl e
      | Inr pm \<Rightarrow> Inr \<lparr>ggv_vehicle = vp, ggv_points = [], generated = False,
                        v_min = 0, v_max = 0, v_step = 1, ay_min = 0, ay_max = 0, ay_step = 1\<rparr>)"

definition calculateMaxAcceleration :: "GGVGenerator \<Rightarrow> real \<Rightarrow> real \<Rightarrow> real" where
  "calculateMaxAcceleration G v0 ay =
     (let g = GRAVITY;
          m = mass (mass_params (ggv_vehicle G));
          v = (if v0 < 0.1 then 0.1 else v0);
          Fz_total = getTotalVerticalLoad (aero_model G) v m g;
          Fy_required = m * ay;
          Fx_tire_max = getAvailableLongitudinalForce (tire_model G) Fz_total Fy_required;
          Fx_engine = getMaxWheelForce (powertrain_model G) v;
          F_drag = getDragForce (aero_model G) v;
          Fx_available = min Fx_engine Fx_tire_max;
          Fx_net = Fx_available - F_drag;
          ax = Fx_net / m
      in max 0 (min ax 50))"

definition calculateMaxBraking :: "GGVGenerator \<Rightarrow> real \<Rightarrow> real \<Rightarrow> real" where
  "calculateMaxBraking G v0 ay =
     (let g = GRAVITY;
          m = mass (mass_params (ggv_vehicle G));
          v = (if v0 < 0.1 then 0.1 else v0);
          Fz_total = getTotalVerticalLoad (aero_model G) v m g;
          Fy_required = m * ay;
          Fx_tire_max = getAvailableLongitudinalForce (tire_model G) Fz_total Fy_required;
          Fx_brake_system = max_brake_force (brake (ggv_vehicle G));
          Fx_brake = min Fx_tire_max Fx_brake_system;
          F_drag = getDragForce (aero_model G) v;
          Fx_net = - (Fx_brake + F_drag);
          ax = Fx_net / m
      in max ax (-60))"

definition grid_point :: "GGVGenerator \<Rightarrow> real \<Rightarrow> real \<Rightarrow> GGVPoint" where
  "grid_point G v ay =
     \<lparr>velocity = v, ay_lateral = ay,
      ax_max_accel = calculateMaxAcceleration G v ay,
      ax_max_brake = calculateMaxBraking G v ay\<rparr>"

text \<open>
  The two nested \<open>for\<close> loops of \<open>generate\<close> step a \<open>double\<close> until it passes the upper
  end of the range. With a step that is not positive they never stop, so they are
  partial functions: \<open>None\<close> is a loop that does not return.
\<close>

partial_function (option) generate_ay_loop ::
  "GGVGenerator \<Rightarrow> real \<Rightarrow> real \<Rightarrow> real \<Rightarrow> real \<Rightarrow> GGVPoint list \<Rightarrow> GGVPoint list option" where
  "generate_ay_loop G v ay aymax aystep pts =
     (if ay \<le> aymax
      then generate_ay_loop G v (ay + aystep) aymax aystep (pts @ [grid_point G v ay])
      else Some pts)"

partial_function (option) generate_v_loop ::
  "GGVGenerator \<Rightarrow> real \<Rightarrow> real \<Rightarrow> real \<Rightarrow> real \<Rightarrow> real \<Rightarrow> GGVPoint list \<Rightarrow> GGVPoint list option" where
  "generate_v_loop G v vmax vstep aymax aystep pts =
     (if v \<le> vmax
      then Option.bind (generate_ay_loop G v 0 aymax aystep pts)
             (\<lambda>pts'. generate_v_loop G (v + vstep) vmax vstep aymax aystep pts')
      else Some pts)"

definition generate ::
  "GGVGenerator \<Rightarrow> real \<Rightarrow> real \<Rightarrow> real \<Rightarrow> real \<Rightarrow> real \<Rightarrow> GGVGenerator option" where
  "generate G vmin vmax vstep aymax aystep =
     (let G1 = G\<lparr>v_min := vmin, v_max := vmax, v_step := vstep,
                 ay_min := 0, ay_max := aymax, ay_step := aystep, ggv_points := []\<rparr>
      in Option.bind (generate_v_loop G1 vmin vmax vstep aymax aystep [])
           (\<lambda>pts. Some (G1\<lparr>ggv_points := pts, generated := True\<rparr>)))"

text \<open>
  \<open>static_cast<int>\<close> of a \<open>double\<close> truncates toward zero and is undefined when the
  truncated value is not an \<open>int\<close> (32 bits). The \<open>int\<close> arithmetic on grid indices
  is read without overflow.
\<close>

definition static_cast_int :: "real \<Rightarrow> error + int" where
  "static_cast_int x =
     (let t = (if x \<ge> 0 then \<lfloor>x\<rfloor> else \<lceil>x\<rceil>)
      in if - (2 ^ 31) \<le> t \<and> t < 2 ^ 31 then Inr t else Inl UndefinedBehaviour)"

text \<open>The lambda \<open>getValue\<close> of the two interpolation functions, over the chosen column.\<close>

definition getValue :: "GGVGenerator \<Rightarrow> (GGVPoint \<Rightarrow> real) \<Rightarrow> int \<Rightarrow> int \<Rightarrow> int \<Rightarrow> real" where
  "getValue G col num_ay_points vi ayi =
     (let index = vi * num_ay_points + ayi
      in if index \<ge> 0 \<and> index < int (length (ggv_points G))
         then col (ggv_points G ! nat index) else 0)"

definition interpolate :: "GGVGenerator \<Rightarrow> (GGVPoint \<Rightarrow> real) \<Rightarrow> real \<Rightarrow> real \<Rightarrow> error + real" where
  "interpolate G col v0 ay0 =
     (let v = max (v_min G) (min (v_max G) v0);
          ay = max 0 (min (ay_max G) ay0);
          v_idx_f = (v - v_min G) / v_step G;
          ay_idx_f = ay / ay_step G
      in case static_cast_int v_idx_f of Inl e \<Rightarrow> Inl e | Inr v_idx \<Rightarrow>
         case static_cast_int ay_idx_f of Inl e \<Rightarrow> Inl e | Inr ay_idx \<Rightarrow>
         let v_t = v_idx_f - real_of_int v_idx;
             ay_t = ay_idx_f - real_of_int ay_idx
         in case static_cast_int ((ay_max G - ay_min G) / ay_step G) of Inl e \<Rightarrow> Inl e | Inr k \<Rightarrow>
         let num_ay_points = k + 1;
             v00 = getValue G col num_ay_points v_idx ay_idx;
             v10 = getValue G col num_ay_points (v_idx + 1) ay_idx;
             v01 = getValue G col num_ay_points v_idx (ay_idx + 1);
             v11 = getValue G col num_ay_points (v_idx + 1) (ay_idx + 1);
             v0 = v00 * (1 - v_t) + v10 * v_t;
             v1 = v01 * (1 - v_t) + v11 * v_t
         in Inr (v0 * (1 - ay_t) + v1 * ay_t))"

definition interpolateAcceleration :: "GGVGenerator \<Rightarrow> real \<Rightarrow> real \<Rightarrow> error + real" where
  "interpolateAcceleration G v ay = interpolate G ax_max_accel v ay"

definition interpolateBraking :: "GGVGenerator \<Rightarrow> real \<Rightarrow> real \<Rightarrow> error + real" where
  "interpolateBraking G v ay = interpolate G ax_max_brake v ay"

definition getMaxAcceleration :: "GGVGenerator \<Rightarrow> real \<Rightarrow> real \<Rightarrow> error + real" where
  "getMaxAcceleration G v ay =
     (if \<not> generated G then Inl RuntimeError else interpolateAcceleration G v \<bar>ay\<bar>)"

definition getMaxBraking :: "GGVGenerator \<Rightarrow> real \<Rightarrow> real \<Rightarrow> error + real" where
  "getMaxBraking G v ay =
     (if \<not> generated G then Inl RuntimeError else interpolateBraking G v \<bar>ay\<bar>)"

subsection \<open>Track (TrackData.h, TrackData.cpp)\<close>

record TrackPoint =
  tp_x :: real
  tp_y :: real
  tp_z :: real
  w_tr_left :: real
  w_tr_right :: real
  banking :: real
  tp_s :: real
  tp_psi :: real
  tp_kappa :: real
  tp_ds :: real

record TrackData =
  points :: "TrackPoint list"
  total_length :: real
  preprocessed :: bool
  track_name :: string

definition new_TrackPoint :: TrackPoint where
  "new_TrackPoint =
     \<lparr>tp_x = 0, tp_y = 0, tp_z = 0, w_tr_left = 0, w_tr_right = 0, banking = 0,
      tp_s = 0, tp_psi = 0, tp_kappa = 0, tp_ds = 0\<rparr>"

definition new_TrackData :: TrackData where
  "new_TrackData = \<lparr>points = [], total_length = 0, preprocessed = False, track_name = ''Unnamed Track''\<rparr>"

definition addPoint :: "TrackData \<Rightarrow> real \<Rightarrow> real \<Rightarrow> real \<Rightarrow> real \<Rightarrow> real \<Rightarrow> real \<Rightarrow> TrackData" where
  "addPoint T x y z w_left w_right bank =
     (let point = new_TrackPoint\<lparr>tp_x := x, tp_y := y, tp_z := z,
                                 w_tr_left := w_left, w_tr_right := w_right, banking := bank\<rparr>
      in T\<lparr>points := points T @ [point], preprocessed := False\<rparr>)"

text \<open>
  The three passes of \<open>preprocess\<close> are private and only run behind its guard, on at
  least three points; all their indices are then in range. Each loop body is a function
  from the index and the point vector to the new point vector.
\<close>

definition arc_length_step :: "nat \<Rightarrow> TrackPoint list \<Rightarrow> TrackPoint list" where
  "arc_length_step i ps =
     (let dx = tp_x (ps ! i) - tp_x (ps ! (i - 1));
          dy = tp_y (ps ! i) - tp_y (ps ! (i - 1));
          dz = tp_z (ps ! i) - tp_z (ps ! (i - 1));
          segment_length = sqrt (dx * dx + dy * dy + dz * dz);
          ps1 = ps[i - 1 := (ps ! (i - 1))\<lparr>tp_ds := segment_length\<rparr>]
      in ps1[i := (ps1 ! i)\<lparr>tp_s := tp_s (ps1 ! (i - 1)) + segment_length\<rparr>])"

definition calculateArcLength :: "TrackData \<Rightarrow> TrackData" where
  "calculateArcLength T =
     (let ps0 = (points T)[0 := (points T ! 0)\<lparr>tp_s := 0\<rparr>];
          ps1 = fold arc_length_step [1..<length ps0] ps0;
          dx = tp_x (ps1 ! 0) - tp_x (last ps1);
          dy = tp_y (ps1 ! 0) - tp_y (last ps1);
          dz = tp_z (ps1 ! 0) - tp_z (last ps1);
          ps2 = ps1[length ps1 - 1 := (last ps1)\<lparr>tp_ds := sqrt (dx * dx + dy * dy + dz * dz)\<rparr>]
      in T\<lparr>points := ps2, total_length := tp_s (last ps2) + tp_ds (last ps2)\<rparr>)"

text \<open>
  \<open>std::atan2\<close>: the angle of the point \<open>(x, y)\<close>, and 0 at the origin. The function
  returns a \<open>double\<close>, and the \<open>double\<close> it returns for a half turn is the one that the
  literal \<open>PI\<close> denotes; so the half and quarter turns are written with \<open>PI\<close>, and a
  heading difference of exactly a half turn is at the bound that \<open>normalizeAngle\<close>
  compares with, as in the code.
\<close>

definition atan2 :: "real \<Rightarrow> real \<Rightarrow> real" where
  "atan2 y x =
     (if x > 0 then arctan (y / x)
      else if x < 0 then (if y \<ge> 0 then arctan (y / x) + PI else arctan (y / x) - PI)
      else if y > 0 then PI / 2
      else if y < 0 then - PI / 2
      else 0)"

definition heading_step :: "nat \<Rightarrow> TrackPoint list \<Rightarrow> TrackPoint list" where
  "heading_step i ps =
     (let n = length ps;
          i_prev = (if i = 0 then n - 1 else i - 1);
          i_next = (if i = n - 1 then 0 else i + 1);
          dx = tp_x (ps ! i_next) - tp_x (ps ! i_prev);
          dy = tp_y (ps ! i_next) - tp_y (ps ! i_prev)
      in ps[i := (ps ! i)\<lparr>tp_psi := atan2 dy dx\<rparr>])"

definition calculateHeading :: "TrackData \<Rightarrow> TrackData" where
  "calculateHeading T = T\<lparr>points := fold heading_step [0..<length (points T)] (points T)\<rparr>"

text \<open>The two \<open>while\<close> loops of \<open>normalizeAngle\<close>, with its own literal for \<open>PI\<close>.\<close>

function normalize_down :: "real \<Rightarrow> real" where
  "normalize_down angle = (if angle > PI then normalize_down (angle - 2 * PI) else angle)"
  by pat_completeness auto
termination
proof (relation "measure (\<lambda>a. nat \<lceil>(a - PI) / (2 * PI)\<rceil>)")
  show "wf (measure (\<lambda>a. nat \<lceil>(a - PI) / (2 * PI)\<rceil>))" by simp
next
  fix angle :: real
  assume a: "PI < angle"
  have p: "0 < 2 * PI" by (simp add: PI_def)
  have "(angle - 2 * PI - PI) / (2 * PI) = (angle - PI) / (2 * PI) - 1"
    using p by (simp add: field_simps)
  moreover have "0 < (angle - PI) / (2 * PI)" using a p by simp
  ultimately show "(angle - 2 * PI, angle) \<in> measure (\<lambda>a. nat \<lceil>(a - PI) / (2 * PI)\<rceil>)"
    by simp
qed

function normalize_up :: "real \<Rightarrow> real" where
  "normalize_up angle = (if angle < - PI then normalize_up (angle + 2 * PI) else angle)"
  by pat_completeness auto
termination
proof (relation "measure (\<lambda>a. nat \<lceil>(- PI - a) / (2 * PI)\<rceil>)")
  show "wf (measure (\<lambda>a. nat \<lceil>(- PI - a) / (2 * PI)\<rceil>))" by simp
next
  fix angle :: real
  assume a: "angle < - PI"
  have p: "0 < 2 * PI" by (simp add: PI_def)
  have "(- PI - (angle + 2 * PI)) / (2 * PI) = (- PI - angle) / (2 * PI) - 1"
    using p by (simp add: field_simps)
  moreover have "0 < (- PI - angle) / (2 * PI)" using a p by simp
  ultimately show "(angle + 2 * PI, angle) \<in> measure (\<lambda>a. nat \<lceil>(- PI - a) / (2 * PI)\<rceil>)"
    by simp
qed

definition normalizeAngle :: "real \<Rightarrow> real" where
  "normalizeAngle angle = normalize_up (normalize_down angle)"

definition curvature_step :: "real \<Rightarrow> nat \<Rightarrow> TrackPoint list \<Rightarrow> TrackPoint list" where
  "curvature_step len i ps =
     (let n = length ps;
          i_prev = (if i = 0 then n - 1 else i - 1);
          i_next = (if i = n - 1 then 0 else i + 1);
          dpsi = normalizeAngle (tp_psi (ps ! i_next) - tp_psi (ps ! i_prev));
          ds0 = tp_s (ps ! i_next) - tp_s (ps ! i_prev);
          ds = (if ds0 < 0 then ds0 + len else ds0)
      in ps[i := (ps ! i)\<lparr>tp_kappa := (if ds > 0.000001 then dpsi / ds else 0)\<rparr>])"

definition calculateCurvature :: "TrackData \<Rightarrow> TrackData" where
  "calculateCurvature T =
     T\<lparr>points := fold (curvature_step (total_length T)) [0..<length (points T)] (points T)\<rparr>"

definition preprocess :: "TrackData \<Rightarrow> error + TrackData" where
  "preprocess T =
     (if length (points T) < 3 then Inl RuntimeError
      else Inr ((calculateCurvature (calculateHeading (calculateArcLength T)))\<lparr>preprocessed := True\<rparr>))"

definition getPoint :: "TrackData \<Rightarrow> nat \<Rightarrow> error + TrackPoint" where
  "getPoint T index = (if index \<ge> length (points T) then Inl OutOfRange else Inr (points T ! index))"

text \<open>
  The binary search of \<open>findIndexAt\<close>; it is private and runs on a preprocessed track,
  where \<open>points_.size() - 1\<close> does not wrap around.
\<close>

function findIndex_loop :: "TrackPoint list \<Rightarrow> real \<Rightarrow> nat \<Rightarrow> nat \<Rightarrow> nat" where
  "findIndex_loop ps s left right =
     (if left < right
      then let mid = left + (right - left) div 2
           in if tp_s (ps ! mid) \<le> s then findIndex_loop ps s (mid + 1) right
              else findIndex_loop ps s left mid
      else left)"
  by pat_completeness auto
termination
  by (relation "measure (\<lambda>(ps, s, left, right). right - left)") auto

definition findIndexAt :: "TrackData \<Rightarrow> real \<Rightarrow> nat" where
  "findIndexAt T s =
     (let left = findIndex_loop (points T) s 0 (length (points T) - 1)
      in if left > 0 \<and> tp_s (points T ! left) > s then left - 1 else left)"

text \<open>
  The two loops that bring \<open>s\<close> into \<open>[0, total_length)\<close>. They are partial functions:
  \<open>None\<close> is a loop that never returns. On a track of total length 0 they do not
  stop. With \<open>double\<close> values they also do not stop when \<open>s\<close> is so large against the
  total length that \<open>s + total_length\<close> or \<open>s - total_length\<close> rounds back to \<open>s\<close>; the
  sums here are exact, so nothing is stated below about when these loops return.
\<close>

partial_function (option) wrap_negative :: "real \<Rightarrow> real \<Rightarrow> real option" where
  "wrap_negative len s = (if s < 0 then wrap_negative len (s + len) else Some s)"

partial_function (option) wrap_beyond :: "real \<Rightarrow> real \<Rightarrow> real option" where
  "wrap_beyond len s = (if s \<ge> len then wrap_beyond len (s - len) else Some s)"

definition normalize_s :: "TrackData \<Rightarrow> real \<Rightarrow> real option" where
  "normalize_s T s = Option.bind (wrap_negative (total_length T) s) (wrap_beyond (total_length T))"

definition interpolate_point :: "TrackData \<Rightarrow> real \<Rightarrow> TrackPoint" where
  "interpolate_point T s =
     (let i = findIndexAt T s;
          i_next = (i + 1) mod length (points T);
          p1 = points T ! i;
          p2 = points T ! i_next;
          t0 = (if tp_ds p1 > 0.000001 then (s - tp_s p1) / tp_ds p1 else 0);
          t = max 0 (min 1 t0);
          dpsi = normalizeAngle (tp_psi p2 - tp_psi p1)
      in \<lparr>tp_x = tp_x p1 + t * (tp_x p2 - tp_x p1),
          tp_y = tp_y p1 + t * (tp_y p2 - tp_y p1),
          tp_z = tp_z p1 + t * (tp_z p2 - tp_z p1),
          w_tr_left = w_tr_left p1 + t * (w_tr_left p2 - w_tr_left p1),
          w_tr_right = w_tr_right p1 + t * (w_tr_right p2 - w_tr_right p1),
          banking = banking p1 + t * (banking p2 - banking p1),
          tp_s = s,
          tp_psi = normalizeAngle (tp_psi p1 + t * dpsi),
          tp_kappa = tp_kappa p1 + t * (tp_kappa p2 - tp_kappa p1),
          tp_ds = tp_ds p1\<rparr>)"

text \<open>
  The three queries: \<open>None\<close> when the call does not return, \<open>Some (Inl e)\<close> when it
  throws, \<open>Some (Inr r)\<close> when it returns \<open>r\<close>.
\<close>

definition interpolateAt :: "TrackData \<Rightarrow> real \<Rightarrow> (error + TrackPoint) option" where
  "interpolateAt T s =
     (if \<not> preprocessed T then Some (Inl RuntimeError)
      else Option.bind (normalize_s T s) (\<lambda>s'. Some (Inr (interpolate_point T s'))))"

definition getCurvatureAt :: "TrackData \<Rightarrow> real \<Rightarrow> (error + real) option" where
  "getCurvatureAt T s =
     (if \<not> preprocessed T then Some (Inl RuntimeError)
      else Option.bind (normalize_s T s)
             (\<lambda>s'. let i = findIndexAt T s';
                        i_next = (i + 1) mod length (points T);
                        p1 = points T ! i;
                        p2 = points T ! i_next;
                        t0 = (if tp_ds p1 > 0.000001 then (s' - tp_s p1) / tp_ds p1 else 0);
                        t = max 0 (min 1 t0)
                    in Some (Inr (tp_kappa p1 + t * (tp_kappa p2 - tp_kappa p1)))))"

definition isWithinBounds :: "TrackData \<Rightarrow> real \<Rightarrow> real \<Rightarrow> (error + bool) option" where
  "isWithinBounds T s n =
     (if \<not> preprocessed T then Some (Inl RuntimeError)
      else Option.bind (interpolateAt T s)
             (\<lambda>r. case r of Inl e \<Rightarrow> Some (Inl e)
                   | Inr point \<Rightarrow> Some (Inr (n \<ge> - w_tr_right point \<and> n \<le> w_tr_left point))))"

subsection \<open>Solver (QuasiSteadyStateSolver.h, QuasiSteadyStateSolver.cpp)\<close>

text \<open>
  The solver refers to the track and the vehicle, owns the GGV generator and the four
  velocity vectors. \<open>operator[]\<close> on a \<open>std::vector\<close> is unchecked: an index out of range
  is undefined behaviour, an error value of the model. Statements run in sequence, the
  first error ends the run.
\<close>

record QuasiSteadyStateSolver =
  track :: TrackData
  vehicle :: VehicleParams
  ggv :: GGVGenerator
  n_points :: nat
  v_corner :: "real list"
  v_accel :: "real list"
  v_brake :: "real list"
  v_optimal :: "real list"
  lap_time :: real
  converged :: bool
  iterations_used :: int

definition err_bind :: "error + 'a \<Rightarrow> ('a \<Rightarrow> error + 'b) \<Rightarrow> error + 'b" where
  "err_bind m f = (case m of Inl e \<Rightarrow> Inl e | Inr x \<Rightarrow> f x)"

fun fold_err :: "(nat \<Rightarrow> 's \<Rightarrow> error + 's) \<Rightarrow> nat list \<Rightarrow> 's \<Rightarrow> error + 's" where
  "fold_err f [] S = Inr S"
| "fold_err f (i # is) S = err_bind (f i S) (fold_err f is)"

definition vec_get :: "real list \<Rightarrow> nat \<Rightarrow> error + real" where
  "vec_get xs i = (if i < length xs then Inr (xs ! i) else Inl UndefinedBehaviour)"

definition vec_set :: "real list \<Rightarrow> nat \<Rightarrow> real \<Rightarrow> error + real list" where
  "vec_set xs i x = (if i < length xs then Inr (xs[i := x]) else Inl UndefinedBehaviour)"

text \<open>\<open>n - 1\<close> on a \<open>size_t\<close> of 64 bits wraps around at 0.\<close>

definition size_t_minus_1 :: "nat \<Rightarrow> nat" where
  "size_t_minus_1 n = (if n = 0 then 2 ^ 64 - 1 else n - 1)"

text \<open>
  The constructor. It throws on a track that is not preprocessed and on a vehicle that
  fails \<open>validate\<close>; the four vectors are resized to the number of track points.
\<close>

definition new_QuasiSteadyStateSolver :: "TrackData \<Rightarrow> VehicleParams \<Rightarrow> error + QuasiSteadyStateSolver" where
  "new_QuasiSteadyStateSolver T vp =
     (if \<not> preprocessed T then Inl RuntimeError
      else if \<not> validate vp then Inl RuntimeError
      else err_bind (new_GGVGenerator vp) (\<lambda>G.
           err_bind (new_PowertrainModel (powertrain vp) (tire_radius (tire vp))) (\<lambda>pm.
           Inr \<lparr>track = T, vehicle = vp, ggv = G, n_points = length (points T),
                v_corner = replicate (length (points T)) 0,
                v_accel = replicate (length (points T)) 0,
                v_brake = replicate (length (points T)) 0,
                v_optimal = replicate (length (points T)) 0,
                lap_time = 0, converged = False, iterations_used = 0\<rparr>)))"

definition initialize :: "QuasiSteadyStateSolver \<Rightarrow> QuasiSteadyStateSolver option" where
  "initialize S =
     (let vmax = 120; vstep = 0.5; aymax = 50; aystep = 1
      in Option.bind (generate (ggv S) 0 vmax vstep aymax aystep) (\<lambda>G. Some (S\<lparr>ggv := G\<rparr>)))"

definition solveCorneringVelocity :: "QuasiSteadyStateSolver \<Rightarrow> real \<Rightarrow> real" where
  "solveCorneringVelocity S kappa =
     (let g = GRAVITY;
          m = mass (mass_params (vehicle S));
          mu = mu_y (tire (vehicle S));
          rho = air_density (aero (vehicle S));
          cl = Cl (aero (vehicle S));
          A = frontal_area (aero (vehicle S))
      in if \<bar>kappa\<bar> < 0.002 then 110
         else let abs_kappa = \<bar>kappa\<bar>;
                  aero_factor = 0.5 * mu * rho * (- cl) * A;
                  denominator = m * abs_kappa - aero_factor;
                  numerator = mu * m * g
              in if denominator \<le> 0 then 100
                 else let v_squared = numerator / denominator
                      in if v_squared < 0 then 0 else sqrt v_squared)"

text \<open>The loop body of \<open>calculateCorneringLimit\<close>; the printed statistics are left out.\<close>

definition cornering_step :: "nat \<Rightarrow> QuasiSteadyStateSolver \<Rightarrow> error + QuasiSteadyStateSolver" where
  "cornering_step i S =
     err_bind (getPoint (track S) i) (\<lambda>point.
     err_bind (vec_set (v_corner S) i (solveCorneringVelocity S (tp_kappa point))) (\<lambda>vc.
     Inr (S\<lparr>v_corner := vc\<rparr>)))"

definition calculateCorneringLimit :: "QuasiSteadyStateSolver \<Rightarrow> error + QuasiSteadyStateSolver" where
  "calculateCorneringLimit S = fold_err cornering_step [0..<n_points S] S"

definition forward_step :: "nat \<Rightarrow> QuasiSteadyStateSolver \<Rightarrow> error + QuasiSteadyStateSolver" where
  "forward_step i S =
     err_bind (vec_get (v_accel S) i) (\<lambda>va.
     let v_start = max va 1 in
     err_bind (getPoint (track S) i) (\<lambda>point.
     let ay = v_start * v_start * \<bar>tp_kappa point\<bar> in
     err_bind (getMaxAcceleration (ggv S) v_start ay) (\<lambda>ax0.
     let ax_max = min ax0 50;
         v_squared_end = v_start * v_start + 2 * ax_max * tp_ds point;
         v_end = (if v_squared_end > 0 then sqrt v_squared_end else v_start) in
     err_bind (vec_get (v_corner S) (i + 1)) (\<lambda>vc.
     err_bind (vec_set (v_accel S) (i + 1) (min v_end vc)) (\<lambda>va1.
     err_bind (vec_get va1 (i + 1)) (\<lambda>x.
     err_bind (vec_set va1 (i + 1) (max x 1)) (\<lambda>va2.
     Inr (S\<lparr>v_accel := va2\<rparr>))))))))"

definition forward_closure :: "QuasiSteadyStateSolver \<Rightarrow> error + QuasiSteadyStateSolver" where
  "forward_closure S =
     (let last = size_t_minus_1 (n_points S) in
      err_bind (vec_get (v_accel S) last) (\<lambda>v_start.
      err_bind (getPoint (track S) last) (\<lambda>point.
      let ay = v_start * v_start * \<bar>tp_kappa point\<bar> in
      err_bind (getMaxAcceleration (ggv S) v_start ay) (\<lambda>ax_max.
      let v_squared_end = v_start * v_start + 2 * ax_max * tp_ds point;
          v_end = (if v_squared_end > 0 then sqrt v_squared_end else 0) in
      err_bind (vec_get (v_accel S) 0) (\<lambda>va0.
      err_bind (vec_get (v_corner S) 0) (\<lambda>vc0.
      err_bind (vec_set (v_accel S) 0 (min va0 (min v_end vc0))) (\<lambda>va.
      Inr (S\<lparr>v_accel := va\<rparr>))))))))"

definition forwardIntegration :: "QuasiSteadyStateSolver \<Rightarrow> error + QuasiSteadyStateSolver" where
  "forwardIntegration S =
     err_bind (fold_err forward_step [0..<size_t_minus_1 (n_points S)] S) forward_closure"

text \<open>
  The backward loop counts an \<open>int\<close> down from \<open>n_points - 1\<close> to 1; the number of points
  is read as an \<open>int\<close> without wrap-around.
\<close>

definition backward_step :: "nat \<Rightarrow> QuasiSteadyStateSolver \<Rightarrow> error + QuasiSteadyStateSolver" where
  "backward_step i S =
     err_bind (vec_get (v_brake S) i) (\<lambda>vb.
     let v_start = max vb 1;
         i_prev = i - 1 in
     err_bind (getPoint (track S) i_prev) (\<lambda>point_prev.
     err_bind (getPoint (track S) i) (\<lambda>point.
     let ay = v_start * v_start * \<bar>tp_kappa point\<bar> in
     err_bind (getMaxBraking (ggv S) v_start ay) (\<lambda>ax0.
     let ax_min = max ax0 (- 60);
         v_squared_prev = v_start * v_start - 2 * ax_min * tp_ds point_prev;
         v_prev = (if v_squared_prev > 0 then sqrt v_squared_prev else v_start) in
     err_bind (vec_get (v_corner S) i_prev) (\<lambda>vc.
     err_bind (vec_set (v_brake S) i_prev (min v_prev vc)) (\<lambda>vb1.
     err_bind (vec_get vb1 i_prev) (\<lambda>x.
     err_bind (vec_set vb1 i_prev (max x 1)) (\<lambda>vb2.
     Inr (S\<lparr>v_brake := vb2\<rparr>)))))))))"

definition backward_closure :: "QuasiSteadyStateSolver \<Rightarrow> error + QuasiSteadyStateSolver" where
  "backward_closure S =
     err_bind (vec_get (v_brake S) 0) (\<lambda>v_start.
     err_bind (getPoint (track S) (size_t_minus_1 (n_points S))) (\<lambda>last_point.
     err_bind (getPoint (track S) 0) (\<lambda>point0.
     let ay = v_start * v_start * \<bar>tp_kappa point0\<bar> in
     err_bind (getMaxBraking (ggv S) v_start ay) (\<lambda>ax_min.
     let v_squared_prev = v_start * v_start - 2 * ax_min * tp_ds last_point;
         v_prev = (if v_squared_prev > 0 then sqrt v_squared_prev else 0) in
     err_bind (vec_get (v_brake S) (size_t_minus_1 (n_points S))) (\<lambda>vbl.
     err_bind (vec_get (v_corner S) (size_t_minus_1 (n_points S))) (\<lambda>vcl.
     err_bind (vec_set (v_brake S) (size_t_minus_1 (n_points S)) (min vbl (min v_prev vcl))) (\<lambda>vb.
     Inr (S\<lparr>v_brake := vb\<rparr>))))))))"

definition backwardIntegration :: "QuasiSteadyStateSolver \<Rightarrow> error + QuasiSteadyStateSolver" where
  "backwardIntegration S =
     err_bind (fold_err backward_step (rev [1..<n_points S]) S) backward_closure"

definition combine_step :: "nat \<Rightarrow> QuasiSteadyStateSolver \<Rightarrow> error + QuasiSteadyStateSolver" where
  "combine_step i S =
     err_bind (vec_get (v_corner S) i) (\<lambda>vc.
     err_bind (vec_get (v_accel S) i) (\<lambda>va.
     err_bind (vec_get (v_brake S) i) (\<lambda>vb.
     err_bind (vec_set (v_optimal S) i (Min {vc, va, vb})) (\<lambda>vo.
     Inr (S\<lparr>v_optimal := vo\<rparr>)))))"

definition combineProfiles :: "QuasiSteadyStateSolver \<Rightarrow> error + QuasiSteadyStateSolver" where
  "combineProfiles S = fold_err combine_step [0..<n_points S] S"

text \<open>The loop of \<open>calculateLapTime\<close>, the running total threaded through.\<close>

definition lap_time_step :: "QuasiSteadyStateSolver \<Rightarrow> nat \<Rightarrow> real \<Rightarrow> error + real" where
  "lap_time_step S i total_time =
     err_bind (getPoint (track S) i) (\<lambda>point.
     err_bind (vec_get (v_optimal S) i) (\<lambda>vo.
     if vo > 0 then (let dt = tp_ds point / vo in Inr (total_time + dt)) else Inr total_time))"

definition calculateLapTime :: "QuasiSteadyStateSolver \<Rightarrow> error + real" where
  "calculateLapTime S = fold_err (lap_time_step S) [0..<n_points S] 0"

text \<open>The initialisation loop of \<open>solve\<close> and its iteration loop, by the iterations left.\<close>

definition init_step :: "real \<Rightarrow> nat \<Rightarrow> QuasiSteadyStateSolver \<Rightarrow> error + QuasiSteadyStateSolver" where
  "init_step initial_speed i S =
     err_bind (vec_get (v_corner S) i) (\<lambda>vc.
     err_bind (vec_set (v_accel S) i (min initial_speed vc)) (\<lambda>va.
     err_bind (vec_set (v_brake S) i (min initial_speed vc)) (\<lambda>vb.
     Inr (S\<lparr>v_accel := va, v_brake := vb\<rparr>))))"

fun solve_loop :: "nat \<Rightarrow> int \<Rightarrow> real \<Rightarrow> real \<Rightarrow> QuasiSteadyStateSolver \<Rightarrow> error + QuasiSteadyStateSolver" where
  "solve_loop 0 iter tolerance prev_lap_time S = Inr S"
| "solve_loop (Suc k) iter tolerance prev_lap_time S =
     err_bind (forwardIntegration (S\<lparr>iterations_used := iter + 1\<rparr>)) (\<lambda>S1.
     err_bind (backwardIntegration S1) (\<lambda>S2.
     err_bind (combineProfiles S2) (\<lambda>S3.
     err_bind (calculateLapTime S3) (\<lambda>t.
     let S4 = S3\<lparr>lap_time := t\<rparr>;
         lap_time_change = \<bar>lap_time S4 - prev_lap_time\<bar>
     in if lap_time_change < tolerance then Inr (S4\<lparr>converged := True\<rparr>)
        else solve_loop k (iter + 1) tolerance (lap_time S4) S4))))"

text \<open>
  \<open>solve\<close> returns the lap time; the model returns the solver's final state with it.
  \<open>None\<close> is a run that does not return, \<open>Some (Inl e)\<close> a run that throws.
\<close>

definition solve :: "QuasiSteadyStateSolver \<Rightarrow> int \<Rightarrow> real \<Rightarrow> (error + real \<times> QuasiSteadyStateSolver) option" where
  "solve S max_iterations tolerance =
     Option.bind (initialize S) (\<lambda>S0. Some (
       err_bind (calculateCorneringLimit S0) (\<lambda>S1.
       let initial_speed = 50 in
       err_bind (fold_err (init_step initial_speed) [0..<n_points S1] S1) (\<lambda>S2.
       let prev_lap_time = 1000000000 in
       err_bind (solve_loop (nat max_iterations) 0 tolerance prev_lap_time (S2\<lparr>converged := False\<rparr>)) (\<lambda>S3.
       Inr (lap_time S3, S3))))))"

text \<open>
  What the constructor and \<open>initialize\<close> establish, for the statements about the solver:
  the four vectors have \<open>n_points\<close> entries; the GGV grid is the one \<open>initialize\<close> asks
  for; the solver is ready when both hold for a track of \<open>n_points > 0\<close> points.
\<close>

definition vectors_sized :: "QuasiSteadyStateSolver \<Rightarrow> bool" where
  "vectors_sized S =
     (length (v_corner S) = n_points S \<and> length (v_accel S) = n_points S \<and>
      length (v_brake S) = n_points S \<and> length (v_optimal S) = n_points S)"

definition grid_ready :: "GGVGenerator \<Rightarrow> bool" where
  "grid_ready G =
     (generated G \<and> v_min G = 0 \<and> v_max G = 120 \<and> v_step G = 0.5 \<and>
      ay_min G = 0 \<and> ay_max G = 50 \<and> ay_step G = 1)"

definition solver_ready :: "QuasiSteadyStateSolver \<Rightarrow> bool" where
  "solver_ready S =
     (vectors_sized S \<and> length (points (track S)) = n_points S \<and> 0 < n_points S \<and> grid_ready (ggv S))"

text \<open>The 3-D Euclidean distance between two track points, for stating the arc-length properties.\<close>

definition euclid3 :: "TrackPoint \<Rightarrow> TrackPoint \<Rightarrow> real" where
  "euclid3 p q =
     sqrt ((tp_x p - tp_x q) * (tp_x p - tp_x q) + (tp_y p - tp_y q) * (tp_y p - tp_y q)
           + (tp_z p - tp_z q) * (tp_z p - tp_z q))"

section \<open>Example inputs\<close>

text \<open>The vehicle of the straight-line scenario, the unlisted parameters at their defaults.\<close>

definition example_powertrain_params :: PowertrainParams where
  "example_powertrain_params =
     \<lparr>engine_torque_curve = [(5000, 250), (10000, 350), (15000, 300)],
      gear_ratios = [3.0, 2.2, 1.7, 1.3, 1.0], final_drive_ratio = 3.5,
      drivetrain_efficiency = 0.95, max_rpm = 15000, min_rpm = 4000, shift_time = 0.05\<rparr>"

definition example_powertrain :: PowertrainModel where
  "example_powertrain = \<lparr>params = example_powertrain_params, pm_tire_radius = 0.3\<rparr>"

text \<open>A powertrain with an engine that brakes at low revolutions and idles from 0 rpm.\<close>

definition negative_torque_powertrain :: PowertrainModel where
  "negative_torque_powertrain =
     \<lparr>params = default_PowertrainParams\<lparr>engine_torque_curve := [(1000, -50)], gear_ratios := [3], min_rpm := 0\<rparr>,
      pm_tire_radius = 0.3\<rparr>"

definition example_vehicle :: VehicleParams where
  "example_vehicle =
     \<lparr>mass_params = default_MassParams, aero = default_AeroParams,
      tire = default_TireParams\<lparr>mu_y := 1.6\<rparr>,
      powertrain = example_powertrain_params, brake = default_BrakeParams\<rparr>"

text \<open>The generator that \<open>new_GGVGenerator\<close> builds for it.\<close>

definition example_ggv :: GGVGenerator where
  "example_ggv =
     \<lparr>ggv_vehicle = example_vehicle, ggv_points = [], generated = False,
      v_min = 0, v_max = 0, v_step = 1, ay_min = 0, ay_max = 0, ay_step = 1\<rparr>"



text \<open>A track of three points, a right triangle with sides 3, 4 and 5, not yet preprocessed.\<close>

definition example_track :: TrackData where
  "example_track =
     addPoint (addPoint (addPoint new_TrackData 0 0 0 5 5 0) 3 0 0 5 5 0) 3 4 0 5 5 0"

text \<open>A track whose first two points coincide.\<close>

definition duplicate_point_track :: TrackData where
  "duplicate_point_track =
     addPoint (addPoint (addPoint new_TrackData 0 0 0 5 5 0) 0 0 0 5 5 0) 1 0 0 5 5 0"

text \<open>A solver state with three track points and filled velocity profiles.\<close>

definition example_profiles :: QuasiSteadyStateSolver where
  "example_profiles =
     \<lparr>track = example_track, vehicle = example_vehicle, ggv = example_ggv, n_points = 3,
      v_corner = [110, 40, 100], v_accel = [50, 52, 30], v_brake = [60, 45, 35],
      v_optimal = [0, 0, 0], lap_time = 0, converged = False, iterations_used = 0\<rparr>"

section \<open>Verified properties\<close>

subsection \<open>Lap result\<close>

text \<open>
  C9. With a non-empty state sequence and a positive lap time, \<open>getAverageSpeed\<close> is the
  arc length \<open>s\<close> of the last state divided by the lap time; with an empty sequence or
  a lap time that is not positive it is 0.
\<close>

theorem getAverageSpeed_last_s:
  "getAverageSpeed r =
     (if states r \<noteq> [] \<and> lr_lap_time r > 0 then st_s (last (states r)) / lr_lap_time r else 0)"
  by (simp add: getAverageSpeed_def Let_def)

subsection \<open>Powertrain\<close>

lemma getRPM_valid:
  "isValidGear pm g \<Longrightarrow>
   getRPM pm v g = v / pm_tire_radius pm * (gear_ratios (params pm) ! nat (g - 1) * final_drive_ratio (params pm)) * 60 / (2 * PI)"
  by (simp add: getRPM_def getTotalGearRatio_def Let_def mult_ac)

text \<open>
  C6. \<open>getWheelForce v g\<close> is 0 when \<open>g\<close> is not in \<open>[1, number of gears]\<close> or \<open>v \<le> 0\<close>;
  otherwise, with \<open>rpm\<close> computed from \<open>v\<close> through the gearing, it is 0 when \<open>rpm\<close> is
  below \<open>min_rpm\<close> or above \<open>max_rpm\<close>, and otherwise
  \<open>getTorqueAt rpm * gear_ratio[g-1] * final_drive * efficiency / tire_radius\<close>.
\<close>

theorem getWheelForce_spec:
  "getWheelForce pm v g =
     (if \<not> (1 \<le> g \<and> g \<le> int (length (gear_ratios (params pm)))) \<or> v \<le> 0 then 0
      else let rpm = v / pm_tire_radius pm * (gear_ratios (params pm) ! nat (g - 1) * final_drive_ratio (params pm)) * 60 / (2 * PI)
           in if rpm < min_rpm (params pm) \<or> rpm > max_rpm (params pm) then 0
              else getTorqueAt (params pm) rpm * (gear_ratios (params pm) ! nat (g - 1)
                     * final_drive_ratio (params pm)) * drivetrain_efficiency (params pm) / pm_tire_radius pm)"
proof (cases "isValidGear pm g")
  case True
  then have g: "1 \<le> g \<and> g \<le> int (length (gear_ratios (params pm)))"
    by (simp add: isValidGear_def)
  have r: "getTotalGearRatio pm g = gear_ratios (params pm) ! nat (g - 1) * final_drive_ratio (params pm)"
    using True by (simp add: getTotalGearRatio_def)
  show ?thesis
    unfolding getWheelForce_def getRPM_valid[OF True] getEngineTorque_def r Let_def
    using True g by simp
next
  case False
  then show ?thesis by (simp add: getWheelForce_def isValidGear_def)
qed

theorem getWheelForce_spec_witness:
  "getWheelForce example_powertrain 50 3
     = getTorqueAt example_powertrain_params (29750 / PI) * (1.7 * 3.5) * 0.95 / 0.3 \<and>
   getWheelForce example_powertrain 50 6 = 0 \<and> getWheelForce example_powertrain 0 3 = 0 \<and>
   getWheelForce example_powertrain 50 1 = 0"
proof -
  have b: "4000 \<le> 29750 / PI" "29750 / PI \<le> 15000" "15000 < 52500 / PI"
    by (simp_all add: PI_def)
  show ?thesis
    using b getWheelForce_spec[of example_powertrain 50 3] getWheelForce_spec[of example_powertrain 50 6]
      getWheelForce_spec[of example_powertrain 0 3] getWheelForce_spec[of example_powertrain 50 1]
    by (simp add: example_powertrain_def example_powertrain_params_def)
qed

lemma max_force_loop_ge: "m \<le> max_force_loop pm v is m"
  unfolding max_force_loop_def
  by (induction "is" arbitrary: m) (auto simp: Let_def intro: order_trans[OF max.cobounded1])

lemma Max_insert_max:
  fixes m a :: real
  assumes "finite S"
  shows "Max (insert (max m a) S) = Max (insert m (insert a S))"
proof (cases "S = {}")
  case True
  then show ?thesis by (simp add: max.commute)
next
  case False
  with assms show ?thesis by (simp add: max.assoc)
qed

lemma max_force_loop_Max:
  "max_force_loop pm v is m = Max (insert m ((\<lambda>i. getWheelForce pm v (int (i + 1))) ` set is))"
  unfolding max_force_loop_def
proof (induction "is" arbitrary: m)
  case Nil then show ?case by simp
next
  case (Cons i "is")
  show ?case
    using Cons[of "max m (getWheelForce pm v (int (i + 1)))"]
    by (simp add: Let_def Max_insert_max)
qed

lemma upper_bound_gt: "upper_bound c k < length c \<Longrightarrow> k < fst (c ! upper_bound c k)"
  by (induction c) auto

lemma upper_bound_before: "i < upper_bound c k \<Longrightarrow> fst (c ! i) \<le> k"
proof (induction c arbitrary: i)
  case Nil then show ?case by simp
next
  case (Cons e es)
  then show ?case by (cases i) (auto split: if_splits)
qed

lemma upper_bound_lt_length: "c \<noteq> [] \<Longrightarrow> k < fst (last c) \<Longrightarrow> upper_bound c k < length c"
  by (induction c) (auto split: if_splits)

lemma upper_bound_pos: "c \<noteq> [] \<Longrightarrow> \<not> k < fst (hd c) \<Longrightarrow> 0 < upper_bound c k"
  by (cases c) auto

lemma lerp_nonneg:
  fixes a b t :: real
  assumes "0 \<le> a" "0 \<le> b" "0 \<le> t" "t \<le> 1"
  shows "0 \<le> a + t * (b - a)"
proof -
  have "a + t * (b - a) = (1 - t) * a + t * b" by (simp add: algebra_simps)
  also have "0 \<le> \<dots>" using assms by simp
  finally show ?thesis .
qed

lemma getTorqueAt_nonneg:
  assumes "\<forall>e \<in> set (engine_torque_curve p). 0 \<le> snd e"
  shows "0 \<le> getTorqueAt p rpm0"
proof -
  define c where "c = engine_torque_curve p"
  define rpm where "rpm = max 0 rpm0"
  show ?thesis
  proof (cases "c = [] \<or> rpm \<le> fst (hd c) \<or> rpm \<ge> fst (last c)")
    case True
    then show ?thesis
      using assms unfolding getTorqueAt_def Let_def c_def[symmetric] rpm_def[symmetric]
      by (auto simp: c_def)
  next
    case False
    define u where "u = upper_bound c rpm"
    from False have ne: "c \<noteq> []" and lo: "\<not> rpm \<le> fst (hd c)" and hi: "rpm < fst (last c)" by auto
    have u1: "u < length c" unfolding u_def using ne hi by (rule upper_bound_lt_length)
    have u0: "0 < u" unfolding u_def using ne lo by (intro upper_bound_pos) auto
    have k2: "rpm < fst (c ! u)" using u1 unfolding u_def by (rule upper_bound_gt)
    have k1: "fst (c ! (u - 1)) \<le> rpm" using u0 unfolding u_def by (intro upper_bound_before) auto
    have t1: "0 \<le> snd (c ! (u - 1))" and t2: "0 \<le> snd (c ! u)"
      using assms u1 u0 by (auto simp: c_def[symmetric])
    define t where "t = (rpm - fst (c ! (u - 1))) / (fst (c ! u) - fst (c ! (u - 1)))"
    have "0 \<le> t" "t \<le> 1" using k1 k2 by (auto simp: t_def field_simps)
    then have "0 \<le> snd (c ! (u - 1)) + t * (snd (c ! u) - snd (c ! (u - 1)))"
      using t1 t2 by (intro lerp_nonneg)
    then show ?thesis
      using False unfolding getTorqueAt_def Let_def c_def[symmetric] rpm_def[symmetric] u_def[symmetric] t_def
      by simp
  qed
qed

lemma getWheelForce_nonneg:
  assumes "\<forall>e \<in> set (engine_torque_curve (params pm)). 0 \<le> snd e"
    and "\<forall>r \<in> set (gear_ratios (params pm)). 0 \<le> r"
    and "0 \<le> final_drive_ratio (params pm)" "0 \<le> drivetrain_efficiency (params pm)"
    and "0 \<le> pm_tire_radius pm"
  shows "0 \<le> getWheelForce pm v g"
proof (cases "isValidGear pm g")
  case True
  then have "nat (g - 1) < length (gear_ratios (params pm))" by (auto simp: isValidGear_def)
  then have "0 \<le> gear_ratios (params pm) ! nat (g - 1)" using assms(2) by simp
  then have "0 \<le> getTotalGearRatio pm g" using True assms(3) by (simp add: getTotalGearRatio_def)
  moreover have "0 \<le> getEngineTorque pm r" for r
    unfolding getEngineTorque_def using assms(1) by (rule getTorqueAt_nonneg)
  ultimately show ?thesis using assms(4,5)
    by (simp add: getWheelForce_def Let_def)
next
  case False
  then show ?thesis by (simp add: getWheelForce_def)
qed

lemma valid_gears_image:
  "(\<lambda>i. getWheelForce pm v (int (i + 1))) ` set [0..<length (gear_ratios (params pm))]
     = getWheelForce pm v ` {g. isValidGear pm g}"
proof -
  have e: "(\<lambda>i. int (i + 1)) ` set [0..<length (gear_ratios (params pm))] = {g. isValidGear pm g}"
  proof (intro set_eqI iffI)
    fix g assume "g \<in> {g. isValidGear pm g}"
    then have "g = int (nat (g - 1) + 1)" "nat (g - 1) \<in> set [0..<length (gear_ratios (params pm))]"
      by (auto simp: isValidGear_def)
    then show "g \<in> (\<lambda>i. int (i + 1)) ` set [0..<length (gear_ratios (params pm))]"
      by (rule image_eqI)
  qed (auto simp: isValidGear_def)
  have "(\<lambda>i. getWheelForce pm v (int (i + 1))) ` set [0..<length (gear_ratios (params pm))]
      = getWheelForce pm v ` ((\<lambda>i. int (i + 1)) ` set [0..<length (gear_ratios (params pm))])"
    by (simp only: image_image)
  then show ?thesis by (simp only: e)
qed

text \<open>
  C10, as amended. For \<open>v \<le> 0\<close>, \<open>getMaxWheelForce v\<close> is \<open>getWheelForce 0.01 1\<close>, the
  first-gear wheel force at 0.01 m/s. For \<open>v > 0\<close> it is the maximum of 0 and the wheel
  forces of the valid gears, hence not negative. For every \<open>v\<close> it is not negative when
  no torque of the curve, no gear ratio, and neither the final drive ratio, the
  efficiency nor the tire radius is negative.
\<close>

theorem getMaxWheelForce_cases:
  "(v \<le> 0 \<longrightarrow> getMaxWheelForce pm v = getWheelForce pm 0.01 1) \<and>
   (0 < v \<longrightarrow> getMaxWheelForce pm v = Max (insert 0 (getWheelForce pm v ` {g. isValidGear pm g}))
             \<and> 0 \<le> getMaxWheelForce pm v) \<and>
   ((\<forall>e \<in> set (engine_torque_curve (params pm)). 0 \<le> snd e) \<and>
    (\<forall>r \<in> set (gear_ratios (params pm)). 0 \<le> r) \<and>
    0 \<le> final_drive_ratio (params pm) \<and> 0 \<le> drivetrain_efficiency (params pm) \<and>
    0 \<le> pm_tire_radius pm \<longrightarrow> 0 \<le> getMaxWheelForce pm v)"
proof (intro conjI impI)
  assume "v \<le> 0"
  then show "getMaxWheelForce pm v = getWheelForce pm 0.01 1" by (simp add: getMaxWheelForce_def)
next
  assume "0 < v"
  then show "getMaxWheelForce pm v = Max (insert 0 (getWheelForce pm v ` {g. isValidGear pm g}))"
    unfolding getMaxWheelForce_def max_force_loop_Max valid_gears_image by simp
next
  assume "0 < v"
  then show "0 \<le> getMaxWheelForce pm v"
    by (simp add: getMaxWheelForce_def max_force_loop_ge)
next
  assume a: "(\<forall>e \<in> set (engine_torque_curve (params pm)). 0 \<le> snd e) \<and>
    (\<forall>r \<in> set (gear_ratios (params pm)). 0 \<le> r) \<and>
    0 \<le> final_drive_ratio (params pm) \<and> 0 \<le> drivetrain_efficiency (params pm) \<and>
    0 \<le> pm_tire_radius pm"
  show "0 \<le> getMaxWheelForce pm v"
  proof (cases "v \<le> 0")
    case True
    then show ?thesis using a by (simp add: getMaxWheelForce_def getWheelForce_nonneg)
  next
    case False
    then show ?thesis by (simp add: getMaxWheelForce_def max_force_loop_ge)
  qed
qed

theorem getMaxWheelForce_cases_witness:
  "(0::real) < 50 \<and> 0 \<le> getMaxWheelForce example_powertrain 50 \<and>
   getMaxWheelForce example_powertrain 50
     = Max (insert 0 (getWheelForce example_powertrain 50 ` {g. isValidGear example_powertrain g})) \<and>
   (0::real) \<le> 0 \<and> getMaxWheelForce example_powertrain 0 = getWheelForce example_powertrain 0.01 1 \<and>
   0 \<le> getMaxWheelForce example_powertrain 0"
  using getMaxWheelForce_cases[of 50 example_powertrain] getMaxWheelForce_cases[of 0 example_powertrain]
  by (simp add: example_powertrain_def example_powertrain_params_def)

text \<open>
  C10 as stated fails at \<open>v = 0\<close>: the branch for \<open>v \<le> 0\<close> does not pass through the
  maximum with 0, and with a negative torque inside the operating band the first-gear
  wheel force at 0.01 m/s is negative.
\<close>

theorem getMaxWheelForce_negative:
  "new_PowertrainModel (params negative_torque_powertrain) 0.3 = Inr negative_torque_powertrain \<and>
   getMaxWheelForce negative_torque_powertrain 0 = - 1662.5 \<and>
   \<not> 0 \<le> getMaxWheelForce negative_torque_powertrain 0"
proof -
  have r: "getRPM negative_torque_powertrain 0.01 1 = 21 / (2 * PI)"
    by (simp add: getRPM_def getTotalGearRatio_def isValidGear_def negative_torque_powertrain_def default_PowertrainParams_def)
  have b: "0 \<le> 21 / (2 * PI)" "21 / (2 * PI) \<le> 1000" by (simp_all add: PI_def)
  have v: "isValidGear negative_torque_powertrain 1"
    by (simp add: isValidGear_def negative_torque_powertrain_def default_PowertrainParams_def)
  have t: "getEngineTorque negative_torque_powertrain (21 / (2 * PI)) = - 50"
    using b by (simp add: getEngineTorque_def getTorqueAt_def negative_torque_powertrain_def default_PowertrainParams_def)
  have g: "getTotalGearRatio negative_torque_powertrain 1 = 10.5"
    by (simp add: getTotalGearRatio_def isValidGear_def negative_torque_powertrain_def default_PowertrainParams_def)
  have "getWheelForce negative_torque_powertrain 0.01 1 = - 1662.5"
    unfolding getWheelForce_def r t g Let_def using b v
    by (simp add: negative_torque_powertrain_def default_PowertrainParams_def)
  then show ?thesis
    by (simp add: getMaxWheelForce_def new_PowertrainModel_def negative_torque_powertrain_def)
qed

subsection \<open>Tires\<close>





subsection \<open>GGV diagram\<close>










lemma generate_ay_loop_terminates:
  assumes "0 < aystep"
  shows "\<exists>r. generate_ay_loop G v ay aymax aystep pts = Some r"
proof -
  have "aymax - ay < real n * aystep \<Longrightarrow> \<exists>r. generate_ay_loop G v ay aymax aystep pts = Some r"
    for n ay pts
  proof (induction n arbitrary: ay pts)
    case 0
    then show ?case by (subst generate_ay_loop.simps) simp
  next
    case (Suc n)
    show ?case
    proof (cases "ay \<le> aymax")
      case True
      have "aymax - (ay + aystep) < real n * aystep" using Suc.prems by (simp add: algebra_simps)
      from Suc.IH[OF this] True show ?thesis by (subst generate_ay_loop.simps) simp
    next
      case False
      then show ?thesis by (subst generate_ay_loop.simps) simp
    qed
  qed
  moreover obtain n where "aymax - ay < real n * aystep"
    using ex_less_of_nat_mult[OF assms] by blast
  ultimately show ?thesis by blast
qed

lemma generate_v_loop_terminates:
  assumes "0 < vstep" and "0 < aystep"
  shows "\<exists>r. generate_v_loop G v vmax vstep aymax aystep pts = Some r"
proof -
  have "vmax - v < real n * vstep \<Longrightarrow> \<exists>r. generate_v_loop G v vmax vstep aymax aystep pts = Some r"
    for n v pts
  proof (induction n arbitrary: v pts)
    case 0
    then show ?case by (subst generate_v_loop.simps) simp
  next
    case (Suc n)
    show ?case
    proof (cases "v \<le> vmax")
      case True
      obtain pts' where a: "generate_ay_loop G v 0 aymax aystep pts = Some pts'"
        using generate_ay_loop_terminates[OF assms(2)] by blast
      have "vmax - (v + vstep) < real n * vstep" using Suc.prems by (simp add: algebra_simps)
      from Suc.IH[OF this] True a show ?thesis by (subst generate_v_loop.simps) simp
    next
      case False
      then show ?thesis by (subst generate_v_loop.simps) simp
    qed
  qed
  moreover obtain n where "vmax - v < real n * vstep"
    using ex_less_of_nat_mult[OF assms(1)] by blast
  ultimately show ?thesis by blast
qed

lemma generate_terminates:
  assumes "0 < vstep" and "0 < aystep"
  shows "\<exists>G'. generate G vmin vmax vstep aymax aystep = Some G'"
  using generate_v_loop_terminates[OF assms] unfolding generate_def Let_def
  by (metis bind.bind_lunit)

lemma validate_example_vehicle: "validate example_vehicle"
  by (simp add: validate_def example_vehicle_def default_MassParams_def default_AeroParams_def
      default_TireParams_def example_powertrain_params_def default_BrakeParams_def)



subsection \<open>Track\<close>

lemma euclid3_nonneg: "0 \<le> euclid3 p q"
  by (simp add: euclid3_def)

lemma fold_preserve:
  assumes "\<And>i ps. length (f i ps) = length ps"
    and "\<And>i ps j. j < length ps \<Longrightarrow> g (f i ps ! j) = g (ps ! j)"
  shows "length (fold f is ps) = length ps \<and> (\<forall>j < length ps. g (fold f is ps ! j) = g (ps ! j))"
  by (induction "is" arbitrary: ps) (simp_all add: assms)

lemma length_arc_length_step [simp]: "length (arc_length_step i ps) = length ps"
  by (simp add: arc_length_step_def Let_def)

lemma length_heading_step [simp]: "length (heading_step i ps) = length ps"
  by (simp add: heading_step_def Let_def)

lemma length_curvature_step [simp]: "length (curvature_step len i ps) = length ps"
  by (simp add: curvature_step_def Let_def)

lemma heading_step_fields:
  assumes "j < length ps"
  shows "tp_x (heading_step i ps ! j) = tp_x (ps ! j)" "tp_y (heading_step i ps ! j) = tp_y (ps ! j)"
    "tp_z (heading_step i ps ! j) = tp_z (ps ! j)" "tp_s (heading_step i ps ! j) = tp_s (ps ! j)"
    "tp_ds (heading_step i ps ! j) = tp_ds (ps ! j)"
  using assms by (cases "i = j"; simp add: heading_step_def Let_def)+

lemma curvature_step_fields:
  assumes "j < length ps"
  shows "tp_x (curvature_step len i ps ! j) = tp_x (ps ! j)" "tp_y (curvature_step len i ps ! j) = tp_y (ps ! j)"
    "tp_z (curvature_step len i ps ! j) = tp_z (ps ! j)" "tp_s (curvature_step len i ps ! j) = tp_s (ps ! j)"
    "tp_ds (curvature_step len i ps ! j) = tp_ds (ps ! j)"
  using assms by (cases "i = j"; simp add: curvature_step_def Let_def)+

lemma arc_length_step_position:
  assumes "j < length ps"
  shows "tp_x (arc_length_step i ps ! j) = tp_x (ps ! j)" "tp_y (arc_length_step i ps ! j) = tp_y (ps ! j)"
    "tp_z (arc_length_step i ps ! j) = tp_z (ps ! j)"
  using assms by (cases "i = j"; cases "i - 1 = j"; simp add: arc_length_step_def Let_def)+

lemma arc_length_step_s:
  assumes "j < length ps" "0 < i" "i < length ps"
  shows "tp_s (arc_length_step i ps ! j)
           = (if j = i then tp_s (ps ! (i - 1)) + euclid3 (ps ! i) (ps ! (i - 1)) else tp_s (ps ! j))"
  using assms by (cases "i - 1 = j"; simp add: arc_length_step_def Let_def euclid3_def)

lemma arc_length_step_ds:
  assumes "j < length ps" "0 < i" "i < length ps"
  shows "tp_ds (arc_length_step i ps ! j)
           = (if j = i - 1 then euclid3 (ps ! i) (ps ! (i - 1)) else tp_ds (ps ! j))"
  using assms by (cases "i = j"; auto simp add: arc_length_step_def Let_def euclid3_def)

lemma arc_loop_invariant:
  assumes "k \<le> length ps0" and "0 < length ps0" and "tp_s (ps0 ! 0) = 0"
  defines "ps \<equiv> fold arc_length_step [1..<k] ps0"
  shows "length ps = length ps0
    \<and> (\<forall>j < length ps0. tp_x (ps ! j) = tp_x (ps0 ! j) \<and> tp_y (ps ! j) = tp_y (ps0 ! j) \<and> tp_z (ps ! j) = tp_z (ps0 ! j))
    \<and> tp_s (ps ! 0) = 0
    \<and> (\<forall>j. j + 1 < k \<longrightarrow> tp_ds (ps ! j) = euclid3 (ps0 ! (j + 1)) (ps0 ! j)
                             \<and> tp_s (ps ! (j + 1)) = tp_s (ps ! j) + tp_ds (ps ! j))"
  using assms(1) unfolding ps_def
proof (induction k)
  case 0
  then show ?case using assms(3) by simp
next
  case (Suc k)
  show ?case
  proof (cases "k = 0")
    case True
    then show ?thesis using assms(3) by simp
  next
    case False
    define qs where "qs = fold arc_length_step [1..<k] ps0"
    have k: "0 < k" "k < length ps0" using False Suc.prems by auto
    have IH: "length qs = length ps0"
      "\<forall>j < length ps0. tp_x (qs ! j) = tp_x (ps0 ! j) \<and> tp_y (qs ! j) = tp_y (ps0 ! j) \<and> tp_z (qs ! j) = tp_z (ps0 ! j)"
      "tp_s (qs ! 0) = 0"
      "\<forall>j. j + 1 < k \<longrightarrow> tp_ds (qs ! j) = euclid3 (ps0 ! (j + 1)) (ps0 ! j)
                             \<and> tp_s (qs ! (j + 1)) = tp_s (qs ! j) + tp_ds (qs ! j)"
      using Suc.IH k unfolding qs_def by auto
    have f: "fold arc_length_step [1..<Suc k] ps0 = arc_length_step k qs"
      using k by (simp add: qs_def)
    have kq: "k < length qs" "k - 1 < length qs" using k IH(1) by auto
    have e: "euclid3 (qs ! k) (qs ! (k - 1)) = euclid3 (ps0 ! k) (ps0 ! (k - 1))"
      using IH(2) k by (simp add: euclid3_def)
    have "tp_ds (arc_length_step k qs ! j) = euclid3 (ps0 ! (j + 1)) (ps0 ! j)
          \<and> tp_s (arc_length_step k qs ! (j + 1)) = tp_s (arc_length_step k qs ! j) + tp_ds (arc_length_step k qs ! j)"
      if "j + 1 < Suc k" for j
    proof (cases "j + 1 = k")
      case True
      then have j: "k - 1 = j" "j < length qs" "j \<noteq> k" using kq by auto
      have a: "tp_ds (arc_length_step k qs ! j) = euclid3 (qs ! k) (qs ! j)"
        using arc_length_step_ds[OF j(2) k(1) kq(1)] j by simp
      have b: "tp_s (arc_length_step k qs ! k) = tp_s (qs ! j) + euclid3 (qs ! k) (qs ! j)"
        using arc_length_step_s[OF kq(1) k(1) kq(1)] j by simp
      have c: "tp_s (arc_length_step k qs ! j) = tp_s (qs ! j)"
        using arc_length_step_s[OF j(2) k(1) kq(1)] j by simp
      show ?thesis unfolding True a b c using e j(1) by simp
    next
      case False
      with that have j: "j + 1 < k" by simp
      then have jl: "j < length qs" "j + 1 < length qs" "j \<noteq> k" "j + 1 \<noteq> k" "j \<noteq> k - 1" using kq by auto
      have a: "tp_ds (arc_length_step k qs ! j) = tp_ds (qs ! j)"
        using arc_length_step_ds[OF jl(1) k(1) kq(1)] jl by simp
      have b: "tp_s (arc_length_step k qs ! (j + 1)) = tp_s (qs ! (j + 1))"
        using arc_length_step_s[OF jl(2) k(1) kq(1)] jl by simp
      have c: "tp_s (arc_length_step k qs ! j) = tp_s (qs ! j)"
        using arc_length_step_s[OF jl(1) k(1) kq(1)] jl by simp
      show ?thesis unfolding a b c using IH(4) j by simp
    qed
    moreover have "tp_s (arc_length_step k qs ! 0) = 0"
    proof -
      have q0: "0 < length qs" using kq(1) by linarith
      show ?thesis using arc_length_step_s[OF q0 k(1) kq(1)] k(1) IH(3) by simp
    qed
    moreover have "\<forall>j < length ps0. tp_x (arc_length_step k qs ! j) = tp_x (ps0 ! j)
        \<and> tp_y (arc_length_step k qs ! j) = tp_y (ps0 ! j) \<and> tp_z (arc_length_step k qs ! j) = tp_z (ps0 ! j)"
      using IH(1,2) by (simp add: arc_length_step_position)
    ultimately show ?thesis unfolding f using IH(1) by simp
  qed
qed

lemma calculateArcLength_props:
  assumes n: "0 < length (points T)"
  defines "T1 \<equiv> calculateArcLength T"
  defines "n \<equiv> length (points T)"
  shows "length (points T1) = n"
    and "\<forall>j < n. tp_x (points T1 ! j) = tp_x (points T ! j) \<and> tp_y (points T1 ! j) = tp_y (points T ! j)
                 \<and> tp_z (points T1 ! j) = tp_z (points T ! j)"
    and "tp_s (points T1 ! 0) = 0"
    and "\<forall>j. j + 1 < n \<longrightarrow> tp_ds (points T1 ! j) = euclid3 (points T ! (j + 1)) (points T ! j)
                             \<and> tp_s (points T1 ! (j + 1)) = tp_s (points T1 ! j) + tp_ds (points T1 ! j)"
    and "tp_ds (points T1 ! (n - 1)) = euclid3 (points T ! 0) (points T ! (n - 1))"
    and "total_length T1 = tp_s (points T1 ! (n - 1)) + tp_ds (points T1 ! (n - 1))"
proof -
  define ps0 where "ps0 = (points T)[0 := (points T ! 0)\<lparr>tp_s := 0\<rparr>]"
  define ps1 where "ps1 = fold arc_length_step [1..<length ps0] ps0"
  define ps2 where "ps2 = ps1[length ps1 - 1 := (last ps1)\<lparr>tp_ds := euclid3 (ps1 ! 0) (last ps1)\<rparr>]"
  have l0: "length ps0 = n" by (simp add: ps0_def n_def)
  have n0: "0 < n" using n by (simp add: n_def)
  have p0: "\<forall>j < n. tp_x (ps0 ! j) = tp_x (points T ! j) \<and> tp_y (ps0 ! j) = tp_y (points T ! j)
                 \<and> tp_z (ps0 ! j) = tp_z (points T ! j)"
    using n unfolding ps0_def n_def by (auto simp: nth_list_update)
  have s0: "tp_s (ps0 ! 0) = 0" using n by (simp add: ps0_def)
  have inv: "length ps1 = length ps0"
    "\<forall>j < length ps0. tp_x (ps1 ! j) = tp_x (ps0 ! j) \<and> tp_y (ps1 ! j) = tp_y (ps0 ! j) \<and> tp_z (ps1 ! j) = tp_z (ps0 ! j)"
    "tp_s (ps1 ! 0) = 0"
    "\<forall>j. j + 1 < length ps0 \<longrightarrow> tp_ds (ps1 ! j) = euclid3 (ps0 ! (j + 1)) (ps0 ! j)
                             \<and> tp_s (ps1 ! (j + 1)) = tp_s (ps1 ! j) + tp_ds (ps1 ! j)"
    using arc_loop_invariant[of "length ps0" ps0] s0 n0 l0 unfolding ps1_def by auto
  have l1: "length ps1 = n" using inv(1) l0 by simp
  have last1: "last ps1 = ps1 ! (n - 1)" using l1 n0 last_conv_nth[of ps1] by auto
  have l2: "length ps2 = n" by (simp add: ps2_def l1)
  have last2: "last ps2 = ps2 ! (n - 1)" using l2 n0 last_conv_nth[of ps2] by auto
  have T1: "points T1 = ps2" "total_length T1 = tp_s (last ps2) + tp_ds (last ps2)"
    unfolding T1_def calculateArcLength_def Let_def ps2_def ps1_def ps0_def euclid3_def by simp_all
  have pos2: "tp_x (ps2 ! j) = tp_x (ps1 ! j) \<and> tp_y (ps2 ! j) = tp_y (ps1 ! j) \<and> tp_z (ps2 ! j) = tp_z (ps1 ! j)
      \<and> tp_s (ps2 ! j) = tp_s (ps1 ! j)" if "j < n" for j
    using that l1 by (cases "j = n - 1") (simp_all add: ps2_def last1)
  have ds2: "tp_ds (ps2 ! j) = (if j = n - 1 then euclid3 (ps1 ! 0) (ps1 ! (n - 1)) else tp_ds (ps1 ! j))" if "j < n" for j
    using that l1 by (cases "j = n - 1") (simp_all add: ps2_def last1)
  have pos: "\<forall>j < n. tp_x (ps1 ! j) = tp_x (points T ! j) \<and> tp_y (ps1 ! j) = tp_y (points T ! j)
                 \<and> tp_z (ps1 ! j) = tp_z (points T ! j)"
    using inv(2) p0 l0 by simp
  have e: "euclid3 (ps0 ! i) (ps0 ! j) = euclid3 (points T ! i) (points T ! j)"
     "euclid3 (ps1 ! i) (ps1 ! j) = euclid3 (points T ! i) (points T ! j)" if "i < n" "j < n" for i j
    using that p0 pos by (simp_all add: euclid3_def)
  show "length (points T1) = n" by (simp add: T1 l2)
  show "\<forall>j < n. tp_x (points T1 ! j) = tp_x (points T ! j) \<and> tp_y (points T1 ! j) = tp_y (points T ! j)
                 \<and> tp_z (points T1 ! j) = tp_z (points T ! j)"
    using pos pos2 by (simp add: T1)
  show "tp_s (points T1 ! 0) = 0" using pos2[OF n0] inv(3) by (simp add: T1)
  show "\<forall>j. j + 1 < n \<longrightarrow> tp_ds (points T1 ! j) = euclid3 (points T ! (j + 1)) (points T ! j)
                             \<and> tp_s (points T1 ! (j + 1)) = tp_s (points T1 ! j) + tp_ds (points T1 ! j)"
  proof (intro allI impI)
    fix j assume j: "j + 1 < n"
    then have jn: "j < n" "j \<noteq> n - 1" by auto
    have "tp_ds (ps1 ! j) = euclid3 (points T ! (j + 1)) (points T ! j)"
      "tp_s (ps1 ! (j + 1)) = tp_s (ps1 ! j) + tp_ds (ps1 ! j)"
      using inv(4) j l0 e(1)[OF j jn(1)] by auto
    then show "tp_ds (points T1 ! j) = euclid3 (points T ! (j + 1)) (points T ! j)
                             \<and> tp_s (points T1 ! (j + 1)) = tp_s (points T1 ! j) + tp_ds (points T1 ! j)"
      using pos2[OF j] pos2[OF jn(1)] ds2[OF jn(1)] jn(2) by (simp add: T1)
  qed
  have nn: "n - 1 < n" using n0 by simp
  show "tp_ds (points T1 ! (n - 1)) = euclid3 (points T ! 0) (points T ! (n - 1))"
    using ds2[OF nn] e(2)[OF n0 nn] by (simp add: T1)
  show "total_length T1 = tp_s (points T1 ! (n - 1)) + tp_ds (points T1 ! (n - 1))"
    by (simp add: T1 last2)
qed

lemma calculateHeading_props:
  "length (points (calculateHeading T)) = length (points T)"
  "total_length (calculateHeading T) = total_length T"
  "j < length (points T) \<Longrightarrow>
     tp_x (points (calculateHeading T) ! j) = tp_x (points T ! j) \<and>
     tp_y (points (calculateHeading T) ! j) = tp_y (points T ! j) \<and>
     tp_z (points (calculateHeading T) ! j) = tp_z (points T ! j) \<and>
     tp_s (points (calculateHeading T) ! j) = tp_s (points T ! j) \<and>
     tp_ds (points (calculateHeading T) ! j) = tp_ds (points T ! j)"
  using fold_preserve[of heading_step tp_x] fold_preserve[of heading_step tp_y]
    fold_preserve[of heading_step tp_z] fold_preserve[of heading_step tp_s]
    fold_preserve[of heading_step tp_ds]
  by (simp_all add: calculateHeading_def heading_step_fields)

lemma calculateCurvature_props:
  "length (points (calculateCurvature T)) = length (points T)"
  "total_length (calculateCurvature T) = total_length T"
  "j < length (points T) \<Longrightarrow>
     tp_x (points (calculateCurvature T) ! j) = tp_x (points T ! j) \<and>
     tp_y (points (calculateCurvature T) ! j) = tp_y (points T ! j) \<and>
     tp_z (points (calculateCurvature T) ! j) = tp_z (points T ! j) \<and>
     tp_s (points (calculateCurvature T) ! j) = tp_s (points T ! j) \<and>
     tp_ds (points (calculateCurvature T) ! j) = tp_ds (points T ! j)"
  using fold_preserve[of "curvature_step (total_length T)" tp_x] fold_preserve[of "curvature_step (total_length T)" tp_y]
    fold_preserve[of "curvature_step (total_length T)" tp_z] fold_preserve[of "curvature_step (total_length T)" tp_s]
    fold_preserve[of "curvature_step (total_length T)" tp_ds]
  by (simp_all add: calculateCurvature_def curvature_step_fields)

lemma preprocess_arc:
  assumes "3 \<le> length (points T)"
  defines "n \<equiv> length (points T)"
  shows "\<exists>T'. preprocess T = Inr T' \<and> preprocessed T' \<and> length (points T') = n \<and>
    tp_s (points T' ! 0) = 0 \<and>
    (\<forall>i. i + 1 < n \<longrightarrow> tp_ds (points T' ! i) = euclid3 (points T ! (i + 1)) (points T ! i)
                         \<and> tp_s (points T' ! (i + 1)) = tp_s (points T' ! i) + tp_ds (points T' ! i)) \<and>
    tp_ds (points T' ! (n - 1)) = euclid3 (points T ! 0) (points T ! (n - 1)) \<and>
    total_length T' = tp_s (points T' ! (n - 1)) + tp_ds (points T' ! (n - 1))"
proof -
  define T1 where "T1 = calculateArcLength T"
  define T3 where "T3 = calculateCurvature (calculateHeading T1)"
  have n0: "0 < length (points T)" using assms(1) by linarith
  note a = calculateArcLength_props[OF n0, folded T1_def n_def]
  have l: "length (points T3) = n" "total_length T3 = total_length T1"
    by (simp_all add: T3_def calculateCurvature_props calculateHeading_props a(1))
  have f: "tp_s (points T3 ! j) = tp_s (points T1 ! j) \<and> tp_ds (points T3 ! j) = tp_ds (points T1 ! j)"
    if "j < n" for j
    using that calculateCurvature_props(3)[of j "calculateHeading T1"] calculateHeading_props(3)[of j T1]
    by (simp add: T3_def calculateHeading_props(1) a(1))
  have p: "preprocess T = Inr (T3\<lparr>preprocessed := True\<rparr>)"
    using assms(1) by (simp add: preprocess_def T3_def T1_def)
  have n3: "0 < n" "n - 1 < n" using n0 by (simp_all add: n_def)
  have "\<forall>i. i + 1 < n \<longrightarrow> tp_ds (points T3 ! i) = euclid3 (points T ! (i + 1)) (points T ! i)
                         \<and> tp_s (points T3 ! (i + 1)) = tp_s (points T3 ! i) + tp_ds (points T3 ! i)"
  proof (intro allI impI)
    fix i assume i: "i + 1 < n"
    then have "i < n" by simp
    from f[OF this] f[OF i] a(4) i
    show "tp_ds (points T3 ! i) = euclid3 (points T ! (i + 1)) (points T ! i)
                         \<and> tp_s (points T3 ! (i + 1)) = tp_s (points T3 ! i) + tp_ds (points T3 ! i)"
      by simp
  qed
  then show ?thesis
    using p l f[OF n3(1)] f[OF n3(2)] a(3,5,6) by simp
qed

text \<open>
  C8, as amended. \<open>preprocess\<close> on a track of \<open>N \<ge> 3\<close> points succeeds, and then
  \<open>s[0] = 0\<close>; for every \<open>i < N - 1\<close>, \<open>ds[i]\<close> is the 3-D Euclidean distance between
  points \<open>i\<close> and \<open>i + 1\<close> and \<open>s[i+1] = s[i] + ds[i]\<close>; \<open>ds[N-1]\<close> is the distance from
  the last point back to the first and the total length is \<open>s[N-1] + ds[N-1]\<close>. The arc
  lengths do not decrease: \<open>s[i] \<le> s[i+1]\<close> for every \<open>i < N - 1\<close>.
\<close>

theorem preprocess_arc_length:
  assumes "3 \<le> length (points T)"
  shows "\<exists>T'. preprocess T = Inr T' \<and> length (points T') = length (points T) \<and>
    tp_s (points T' ! 0) = 0 \<and>
    (\<forall>i. i + 1 < length (points T) \<longrightarrow>
        tp_ds (points T' ! i) = euclid3 (points T ! (i + 1)) (points T ! i) \<and>
        tp_s (points T' ! (i + 1)) = tp_s (points T' ! i) + tp_ds (points T' ! i) \<and>
        tp_s (points T' ! i) \<le> tp_s (points T' ! (i + 1))) \<and>
    tp_ds (points T' ! (length (points T) - 1)) = euclid3 (points T ! 0) (points T ! (length (points T) - 1)) \<and>
    total_length T' = tp_s (points T' ! (length (points T) - 1)) + tp_ds (points T' ! (length (points T) - 1))"
proof -
  from preprocess_arc[OF assms] obtain T' where
    p: "preprocess T = Inr T'" "length (points T') = length (points T)" "tp_s (points T' ! 0) = 0"
    "\<forall>i. i + 1 < length (points T) \<longrightarrow> tp_ds (points T' ! i) = euclid3 (points T ! (i + 1)) (points T ! i)
                         \<and> tp_s (points T' ! (i + 1)) = tp_s (points T' ! i) + tp_ds (points T' ! i)"
    "tp_ds (points T' ! (length (points T) - 1)) = euclid3 (points T ! 0) (points T ! (length (points T) - 1))"
    "total_length T' = tp_s (points T' ! (length (points T) - 1)) + tp_ds (points T' ! (length (points T) - 1))"
    by blast
  have "tp_s (points T' ! i) \<le> tp_s (points T' ! (i + 1))"
    if "i + 1 < length (points T)" for i
  proof -
    have d: "tp_ds (points T' ! i) = euclid3 (points T ! (i + 1)) (points T ! i)"
      and s: "tp_s (points T' ! (i + 1)) = tp_s (points T' ! i) + tp_ds (points T' ! i)"
      using p(4) that by auto
    have "0 \<le> tp_ds (points T' ! i)" unfolding d by (rule euclid3_nonneg)
    then show ?thesis unfolding s by simp
  qed
  with p show ?thesis by (intro exI[of _ T']) simp
qed

lemma sqrt_9_16_25: "sqrt 9 = 3" "sqrt 16 = 4" "sqrt 25 = 5"
  using real_sqrt_abs[of 3] real_sqrt_abs[of 4] real_sqrt_abs[of 5] by simp_all

theorem preprocess_arc_length_witness:
  "\<exists>T'. preprocess example_track = Inr T' \<and>
     tp_s (points T' ! 0) = 0 \<and> tp_s (points T' ! 1) = 3 \<and> tp_s (points T' ! 2) = 7 \<and>
     tp_ds (points T' ! 0) = 3 \<and> tp_ds (points T' ! 1) = 4 \<and> tp_ds (points T' ! 2) = 5 \<and>
     total_length T' = 12"
proof -
  have l: "3 \<le> length (points example_track)"
    by (simp add: example_track_def addPoint_def new_TrackData_def)
  have e: "euclid3 (points example_track ! 1) (points example_track ! 0) = 3"
    "euclid3 (points example_track ! 2) (points example_track ! 1) = 4"
    "euclid3 (points example_track ! 0) (points example_track ! 2) = 5"
    by (simp_all add: euclid3_def example_track_def addPoint_def new_TrackData_def new_TrackPoint_def sqrt_9_16_25)
  from preprocess_arc_length[OF l] obtain T' where
    p: "preprocess example_track = Inr T'" "tp_s (points T' ! 0) = 0"
    and q: "\<forall>i. i + 1 < length (points example_track) \<longrightarrow>
        tp_ds (points T' ! i) = euclid3 (points example_track ! (i + 1)) (points example_track ! i) \<and>
        tp_s (points T' ! (i + 1)) = tp_s (points T' ! i) + tp_ds (points T' ! i)"
    and r: "tp_ds (points T' ! (length (points example_track) - 1))
              = euclid3 (points example_track ! 0) (points example_track ! (length (points example_track) - 1))"
      "total_length T' = tp_s (points T' ! (length (points example_track) - 1))
                          + tp_ds (points T' ! (length (points example_track) - 1))"
    by blast
  have n: "length (points example_track) = 3"
    by (simp add: example_track_def addPoint_def new_TrackData_def)
  from q[rule_format, of 0] q[rule_format, of 1] r p e show ?thesis
    unfolding n by (intro exI[of _ T']) (simp add: eval_nat_numeral)
qed

text \<open>
  C8 as stated fails on a track with two consecutive points at the same place:
  preprocessing succeeds and \<open>s[0] = s[1] = 0\<close>.
\<close>

theorem arc_length_not_strict:
  "\<not> isl (preprocess duplicate_point_track) \<and>
   \<not> tp_s (points (projr (preprocess duplicate_point_track)) ! 0)
       < tp_s (points (projr (preprocess duplicate_point_track)) ! 1)"
proof -
  have l: "3 \<le> length (points duplicate_point_track)"
    by (simp add: duplicate_point_track_def addPoint_def new_TrackData_def)
  have e: "euclid3 (points duplicate_point_track ! 1) (points duplicate_point_track ! 0) = 0"
    by (simp add: euclid3_def duplicate_point_track_def addPoint_def new_TrackData_def new_TrackPoint_def)
  from preprocess_arc[OF l] obtain T' where
    p: "preprocess duplicate_point_track = Inr T'" "tp_s (points T' ! 0) = 0"
    and q: "\<forall>i. i + 1 < length (points duplicate_point_track) \<longrightarrow>
        tp_ds (points T' ! i) = euclid3 (points duplicate_point_track ! (i + 1)) (points duplicate_point_track ! i) \<and>
        tp_s (points T' ! (i + 1)) = tp_s (points T' ! i) + tp_ds (points T' ! i)"
    by blast
  from q[rule_format, of 0] l e p show ?thesis by simp
qed

lemma interpolateAt_throws: "(\<exists>e. interpolateAt T s = Some (Inl e)) \<longleftrightarrow> \<not> preprocessed T"
  by (auto simp: interpolateAt_def bind_eq_Some_conv)

lemma getCurvatureAt_throws: "(\<exists>e. getCurvatureAt T s = Some (Inl e)) \<longleftrightarrow> \<not> preprocessed T"
  by (auto simp: getCurvatureAt_def bind_eq_Some_conv Let_def)

lemma isWithinBounds_throws: "(\<exists>e. isWithinBounds T s n = Some (Inl e)) \<longleftrightarrow> \<not> preprocessed T"
proof
  assume "\<exists>e. isWithinBounds T s n = Some (Inl e)"
  then obtain e where e: "isWithinBounds T s n = Some (Inl e)" by blast
  show "\<not> preprocessed T"
  proof
    assume p: "preprocessed T"
    with e obtain r where r: "interpolateAt T s = Some r"
      and c: "(case r of Inl e \<Rightarrow> Some (Inl e) | Inr point \<Rightarrow> Some (Inr (n \<ge> - w_tr_right point \<and> n \<le> w_tr_left point))) = Some (Inl e)"
      by (auto simp: isWithinBounds_def bind_eq_Some_conv)
    from c obtain e' where "r = Inl e'" by (cases r) auto
    with r interpolateAt_throws[of T s] p show False by blast
  qed
next
  assume "\<not> preprocessed T"
  then show "\<exists>e. isWithinBounds T s n = Some (Inl e)" by (simp add: isWithinBounds_def)
qed

text \<open>
  C7. \<open>preprocess\<close> throws exactly when the track has fewer than 3 points, and a track
  it returns is preprocessed; \<open>interpolateAt\<close>, \<open>getCurvatureAt\<close> and \<open>isWithinBounds\<close>
  throw exactly when the track is not preprocessed; \<open>getPoint i\<close> throws exactly when
  \<open>i\<close> is at least the number of points.
\<close>

theorem track_failures:
  "((\<exists>e. preprocess T = Inl e) \<longleftrightarrow> length (points T) < 3) \<and>
   (\<forall>T'. preprocess T = Inr T' \<longrightarrow> preprocessed T') \<and>
   ((\<exists>e. interpolateAt T s = Some (Inl e)) \<longleftrightarrow> \<not> preprocessed T) \<and>
   ((\<exists>e. getCurvatureAt T s = Some (Inl e)) \<longleftrightarrow> \<not> preprocessed T) \<and>
   ((\<exists>e. isWithinBounds T s n = Some (Inl e)) \<longleftrightarrow> \<not> preprocessed T) \<and>
   ((\<exists>e. getPoint T i = Inl e) \<longleftrightarrow> i \<ge> length (points T))"
  using interpolateAt_throws[of T s] getCurvatureAt_throws[of T s] isWithinBounds_throws[of T s n]
  by (auto simp: preprocess_def getPoint_def)

lemma example_track_preprocessed:
  "\<exists>T'. preprocess example_track = Inr T' \<and> preprocessed T' \<and> length (points T') = 3"
proof -
  have l: "3 \<le> length (points example_track)" and n: "length (points example_track) = 3"
    by (simp_all add: example_track_def addPoint_def new_TrackData_def)
  from preprocess_arc[OF l] show ?thesis unfolding n by blast
qed

theorem track_failures_witness:
  "preprocess new_TrackData = Inl RuntimeError \<and>
   interpolateAt example_track 1 = Some (Inl RuntimeError) \<and>
   getCurvatureAt example_track 1 = Some (Inl RuntimeError) \<and>
   isWithinBounds example_track 1 0 = Some (Inl RuntimeError) \<and>
   getPoint example_track 3 = Inl OutOfRange \<and>
   (\<exists>p. getPoint example_track 2 = Inr p) \<and>
   (\<exists>T'. preprocess example_track = Inr T' \<and> preprocessed T' \<and>
      \<not> (\<exists>e. interpolateAt T' 1 = Some (Inl e)) \<and> \<not> (\<exists>e. getCurvatureAt T' 1 = Some (Inl e)) \<and>
      \<not> (\<exists>e. isWithinBounds T' 1 0 = Some (Inl e)))"
proof -
  obtain T' where T': "preprocess example_track = Inr T'" "preprocessed T'"
    using example_track_preprocessed by blast
  have u: "\<not> preprocessed example_track" "length (points example_track) = 3"
    by (simp_all add: example_track_def addPoint_def new_TrackData_def)
  have a: "preprocess new_TrackData = Inl RuntimeError"
    using track_failures[of new_TrackData 0 0 0] by (simp add: new_TrackData_def preprocess_def)
  have b: "interpolateAt example_track 1 = Some (Inl RuntimeError)"
    "getCurvatureAt example_track 1 = Some (Inl RuntimeError)"
    "isWithinBounds example_track 1 0 = Some (Inl RuntimeError)"
    "getPoint example_track 3 = Inl OutOfRange" "\<exists>p. getPoint example_track 2 = Inr p"
    using track_failures[of example_track 1 0 3] track_failures[of example_track 1 0 2] u
    by (simp_all add: interpolateAt_def getCurvatureAt_def isWithinBounds_def getPoint_def)
  have c: "\<not> (\<exists>e. interpolateAt T' 1 = Some (Inl e)) \<and> \<not> (\<exists>e. getCurvatureAt T' 1 = Some (Inl e)) \<and>
      \<not> (\<exists>e. isWithinBounds T' 1 0 = Some (Inl e))"
    using track_failures[of T' 1 0 0] T'(2) by simp
  from a b c T' show ?thesis by (intro conjI exI[of _ T']) simp_all
qed

text \<open>
  On a preprocessed track of total length 0 (all points at one place) the loops that
  bring \<open>s\<close> into range never stop, and \<open>interpolateAt\<close> does not return.
\<close>

lemma wrap_beyond_zero_diverges:
  assumes "wrap_beyond len s = Some r"
  shows "\<not> (len = 0 \<and> 0 \<le> s)"
proof (rule wrap_beyond.raw_induct[where P = "\<lambda>len s r. \<not> (len = 0 \<and> 0 \<le> s)", rotated 1, OF assms], goal_cases)
  case (1 loop len s r)
  show ?case
  proof
    assume a: "len = 0 \<and> 0 \<le> s"
    with 1(2) have "loop len (s - len) = Some r" by simp
    from 1(1)[OF this] a show False by simp
  qed
qed

lemma wrap_negative_result: 
  assumes "wrap_negative len s = Some r"
  shows "0 \<le> r"
proof (rule wrap_negative.raw_induct[where P = "\<lambda>len s r. 0 \<le> r", rotated 1, OF assms], goal_cases)
  case (1 loop len s r)
  then show ?case by (auto split: if_splits)
qed

lemma interpolateAt_zero_length_diverges:
  assumes "preprocessed T" and "total_length T = 0"
  shows "interpolateAt T s = None"
proof (rule ccontr)
  assume "interpolateAt T s \<noteq> None"
  then obtain a b where a: "wrap_negative 0 s = Some a" and b: "wrap_beyond 0 a = Some b"
    using assms by (auto simp: interpolateAt_def normalize_s_def bind_eq_Some_conv)
  from wrap_negative_result[OF a] wrap_beyond_zero_diverges[OF b] show False by simp
qed

subsection \<open>Solver\<close>

lemma err_bind_Inr [simp]: "err_bind (Inr x) f = f x"
  by (simp add: err_bind_def)

lemma err_bind_Inl [simp]: "err_bind (Inl e) f = Inl e"
  by (simp add: err_bind_def)

lemma fold_err_append: "fold_err f (xs @ ys) S = err_bind (fold_err f xs S) (fold_err f ys)"
proof (induction xs arbitrary: S)
  case Nil
  then show ?case by simp
next
  case (Cons x xs)
  then show ?case by (cases "f x S") simp_all
qed

lemma fold_err_single: "fold_err f [k] = f k"
  by (rule ext) (simp add: err_bind_def split: sum.splits)

lemma fold_err_upt_Suc:
  "fold_err f [0..<Suc k] S = err_bind (fold_err f [0..<k] S) (f k)"
  by (simp add: fold_err_append fold_err_single)

text \<open>
  C1. For a solver whose vehicle passes \<open>validate\<close> (the constructor rejects any other),
  \<open>solveCorneringVelocity kappa\<close> is 110 when \<open>\<bar>kappa\<bar> < 0.002\<close>; otherwise 100 when the
  denominator \<open>m * \<bar>kappa\<bar> - 0.5 * mu_y * rho * (- Cl) * A\<close> is not positive; otherwise
  \<open>sqrt (mu_y * m * g / denominator)\<close>.
\<close>

theorem solveCorneringVelocity_spec:
  assumes "validate (vehicle S)"
  shows "solveCorneringVelocity S kappa =
    (if \<bar>kappa\<bar> < 0.002 then 110
     else if mass (mass_params (vehicle S)) * \<bar>kappa\<bar>
              - 0.5 * mu_y (tire (vehicle S)) * air_density (aero (vehicle S)) * (- Cl (aero (vehicle S)))
                * frontal_area (aero (vehicle S)) \<le> 0 then 100
     else sqrt (mu_y (tire (vehicle S)) * mass (mass_params (vehicle S)) * GRAVITY
                / (mass (mass_params (vehicle S)) * \<bar>kappa\<bar>
                   - 0.5 * mu_y (tire (vehicle S)) * air_density (aero (vehicle S)) * (- Cl (aero (vehicle S)))
                     * frontal_area (aero (vehicle S)))))"
proof -
  define den where "den = mass (mass_params (vehicle S)) * \<bar>kappa\<bar>
              - 0.5 * mu_y (tire (vehicle S)) * air_density (aero (vehicle S)) * (- Cl (aero (vehicle S)))
                * frontal_area (aero (vehicle S))"
  define num where "num = mu_y (tire (vehicle S)) * mass (mass_params (vehicle S)) * GRAVITY"
  have "0 < mass (mass_params (vehicle S))" "0 < mu_y (tire (vehicle S))"
    using assms unfolding validate_def by (auto split: if_splits)
  then have "0 < num" by (simp add: num_def GRAVITY_def)
  then have "\<not> num / den < 0" if "\<not> den \<le> 0"
    using that by (simp add: divide_less_0_iff)
  then show ?thesis
    unfolding solveCorneringVelocity_def Let_def den_def[symmetric] num_def[symmetric] by simp
qed

lemma fold_err_inv:
  assumes "\<And>i S. i \<in> set is \<Longrightarrow> I S \<Longrightarrow> \<exists>S'. f i S = Inr S' \<and> I S'" and "I S"
  shows "\<exists>S'. fold_err f is S = Inr S' \<and> I S'"
  using assms
proof (induction "is" arbitrary: S)
  case Nil
  then show ?case by simp
next
  case (Cons i "is")
  from Cons.prems(1)[of i S] Cons.prems(2) obtain S1 where s: "f i S = Inr S1" "I S1" by auto
  from Cons.IH[of S1] Cons.prems(1) s(2) obtain S' where "fold_err f is S1 = Inr S'" "I S'" by auto
  with s show ?case by simp
qed

lemma static_cast_int_small:
  assumes "0 \<le> x" "x \<le> 1000"
  shows "static_cast_int x = Inr \<lfloor>x\<rfloor>"
proof -
  have "0 \<le> \<lfloor>x\<rfloor>" "\<lfloor>x\<rfloor> \<le> 1000" using assms by (simp_all add: floor_le_iff le_floor_iff)
  then show ?thesis using assms(1) by (simp add: static_cast_int_def)
qed

lemma interpolate_returns:
  assumes "grid_ready G"
  shows "\<exists>a. interpolate G col v ay = Inr a"
proof -
  have g: "v_min G = 0" "v_max G = 120" "v_step G = 0.5" "ay_min G = 0" "ay_max G = 50" "ay_step G = 1"
    using assms by (simp_all add: grid_ready_def)
  define vi where "vi = (max 0 (min 120 v) - 0) / 0.5"
  define ai where "ai = max 0 (min 50 ay) / 1"
  have "0 \<le> vi" "vi \<le> 1000" "0 \<le> ai" "ai \<le> 1000" by (simp_all add: vi_def ai_def)
  then have c: "static_cast_int vi = Inr \<lfloor>vi\<rfloor>" "static_cast_int ai = Inr \<lfloor>ai\<rfloor>"
    by (simp_all add: static_cast_int_small)
  have d: "static_cast_int ((50 - 0) / 1) = Inr 50"
    using static_cast_int_small[of 50] by simp
  show ?thesis
    unfolding interpolate_def g Let_def vi_def[symmetric] ai_def[symmetric] c d by simp
qed

lemma getMaxAcceleration_returns:
  "grid_ready G \<Longrightarrow> \<exists>a. getMaxAcceleration G v ay = Inr a"
  using interpolate_returns[of G ax_max_accel v "\<bar>ay\<bar>"]
  by (simp add: getMaxAcceleration_def interpolateAcceleration_def grid_ready_def)

lemma getMaxBraking_returns:
  "grid_ready G \<Longrightarrow> \<exists>a. getMaxBraking G v ay = Inr a"
  using interpolate_returns[of G ax_max_brake v "\<bar>ay\<bar>"]
  by (simp add: getMaxBraking_def interpolateBraking_def grid_ready_def)

lemma generate_grid_ready:
  "\<exists>G'. generate G 0 120 0.5 50 1 = Some G' \<and> grid_ready G' \<and> ggv_vehicle G' = ggv_vehicle G"
proof -
  obtain G' where g: "generate G 0 120 0.5 50 1 = Some G'"
    using generate_terminates[of "0.5" 1 G 0 120 50] by auto
  then have "grid_ready G' \<and> ggv_vehicle G' = ggv_vehicle G"
    unfolding generate_def Let_def by (auto simp: bind_eq_Some_conv grid_ready_def)
  with g show ?thesis by blast
qed

lemma vec_get_ok [simp]: "i < length xs \<Longrightarrow> vec_get xs i = Inr (xs ! i)"
  by (simp add: vec_get_def)

lemma vec_set_ok [simp]: "i < length xs \<Longrightarrow> vec_set xs i x = Inr (xs[i := x])"
  by (simp add: vec_set_def)

lemma getPoint_ok [simp]: "i < length (points T) \<Longrightarrow> getPoint T i = Inr (points T ! i)"
  by (simp add: getPoint_def)

lemma size_t_minus_1_pos [simp]: "0 < n \<Longrightarrow> size_t_minus_1 n = n - 1"
  by (simp add: size_t_minus_1_def)

text \<open>Each pass changes one vector only and keeps its length.\<close>

lemma cornering_step_ok:
  assumes "solver_ready S" "i < n_points S"
  shows "cornering_step i S
    = Inr (S\<lparr>v_corner := (v_corner S)[i := solveCorneringVelocity S (tp_kappa (points (track S) ! i))]\<rparr>)"
  using assms by (simp add: cornering_step_def solver_ready_def vectors_sized_def)

lemma vec_set_twice:
  assumes "i < length xs"
  shows "err_bind (vec_set xs i x) (\<lambda>ys. err_bind (vec_get ys i) (\<lambda>y. err_bind (vec_set ys i (g y)) h))
         = h (xs[i := g x])"
  using assms by simp

lemma forward_step_ok:
  assumes "solver_ready S" "i + 1 < n_points S"
  shows "\<exists>x. forward_step i S = Inr (S\<lparr>v_accel := (v_accel S)[i + 1 := x]\<rparr>) \<and> 1 \<le> x"
proof -
  have i: "i < length (v_accel S)" "i + 1 < length (v_accel S)" "i + 1 < length (v_corner S)"
    "i < length (points (track S))"
    using assms by (simp_all add: solver_ready_def vectors_sized_def)
  have g: "grid_ready (ggv S)" using assms by (simp add: solver_ready_def)
  obtain a where a: "getMaxAcceleration (ggv S) (max (v_accel S ! i) 1)
      (max (v_accel S ! i) 1 * max (v_accel S ! i) 1 * \<bar>tp_kappa (points (track S) ! i)\<bar>) = Inr a"
    using getMaxAcceleration_returns[OF g] by blast
  show ?thesis
    unfolding forward_step_def
    by (simp only: vec_get_ok[OF i(1)] vec_get_ok[OF i(3)] getPoint_ok[OF i(4)] a err_bind_Inr Let_def
        vec_set_twice[OF i(2)]) auto
qed

lemma forward_closure_ok:
  assumes "solver_ready S"
  shows "\<exists>x. forward_closure S = Inr (S\<lparr>v_accel := (v_accel S)[0 := x]\<rparr>)"
proof -
  define l where "l = n_points S - 1"
  have n: "0 < n_points S" using assms unfolding solver_ready_def by blast
  have i: "l < length (v_accel S)" "0 < length (v_accel S)" "0 < length (v_corner S)"
    "l < length (points (track S))"
    using assms by (auto simp add: solver_ready_def vectors_sized_def l_def)
  have g: "grid_ready (ggv S)" using assms by (simp add: solver_ready_def)
  obtain a where a: "getMaxAcceleration (ggv S) (v_accel S ! l)
      (v_accel S ! l * v_accel S ! l * \<bar>tp_kappa (points (track S) ! l)\<bar>) = Inr a"
    using getMaxAcceleration_returns[OF g] by blast
  show ?thesis
    unfolding forward_closure_def size_t_minus_1_pos[OF n] l_def[symmetric]
    by (simp only: vec_get_ok[OF i(1)] vec_get_ok[OF i(2)] vec_get_ok[OF i(3)] vec_set_ok[OF i(2)]
        getPoint_ok[OF i(4)] a err_bind_Inr Let_def) auto
qed

lemma backward_step_ok:
  assumes "solver_ready S" "0 < i" "i < n_points S"
  shows "\<exists>x. backward_step i S = Inr (S\<lparr>v_brake := (v_brake S)[i - 1 := x]\<rparr>) \<and> 1 \<le> x"
proof -
  have i: "i < length (v_brake S)" "i - 1 < length (v_brake S)" "i - 1 < length (v_corner S)"
    "i < length (points (track S))" "i - 1 < length (points (track S))"
    using assms by (simp_all add: solver_ready_def vectors_sized_def)
  have g: "grid_ready (ggv S)" using assms by (simp add: solver_ready_def)
  obtain a where a: "getMaxBraking (ggv S) (max (v_brake S ! i) 1)
      (max (v_brake S ! i) 1 * max (v_brake S ! i) 1 * \<bar>tp_kappa (points (track S) ! i)\<bar>) = Inr a"
    using getMaxBraking_returns[OF g] by blast
  show ?thesis
    unfolding backward_step_def
    by (simp only: vec_get_ok[OF i(1)] vec_get_ok[OF i(3)] getPoint_ok[OF i(4)] getPoint_ok[OF i(5)]
        a err_bind_Inr Let_def vec_set_twice[OF i(2)]) auto
qed

lemma backward_closure_ok:
  assumes "solver_ready S"
  shows "\<exists>x. backward_closure S = Inr (S\<lparr>v_brake := (v_brake S)[n_points S - 1 := x]\<rparr>)"
proof -
  define l where "l = n_points S - 1"
  have n: "0 < n_points S" using assms unfolding solver_ready_def by blast
  have i: "l < length (v_brake S)" "0 < length (v_brake S)" "l < length (v_corner S)"
    "l < length (points (track S))" "0 < length (points (track S))"
    using assms by (auto simp add: solver_ready_def vectors_sized_def l_def)
  have g: "grid_ready (ggv S)" using assms by (simp add: solver_ready_def)
  obtain a where a: "getMaxBraking (ggv S) (v_brake S ! 0)
      (v_brake S ! 0 * v_brake S ! 0 * \<bar>tp_kappa (points (track S) ! 0)\<bar>) = Inr a"
    using getMaxBraking_returns[OF g] by blast
  show ?thesis
    unfolding backward_closure_def size_t_minus_1_pos[OF n] l_def[symmetric]
    by (simp only: vec_get_ok[OF i(1)] vec_get_ok[OF i(2)] vec_get_ok[OF i(3)] vec_set_ok[OF i(1)]
        getPoint_ok[OF i(4)] getPoint_ok[OF i(5)] a err_bind_Inr Let_def) auto
qed

lemma combine_step_ok:
  assumes "vectors_sized S" "i < n_points S"
  shows "combine_step i S
    = Inr (S\<lparr>v_optimal := (v_optimal S)[i := min (v_corner S ! i) (min (v_accel S ! i) (v_brake S ! i))]\<rparr>)"
  using assms by (simp add: combine_step_def vectors_sized_def)

lemma init_step_ok:
  assumes "solver_ready S" "i < n_points S"
  shows "init_step v0 i S
    = Inr (S\<lparr>v_accel := (v_accel S)[i := min v0 (v_corner S ! i)],
              v_brake := (v_brake S)[i := min v0 (v_corner S ! i)]\<rparr>)"
  using assms by (simp add: init_step_def solver_ready_def vectors_sized_def)

lemma lap_time_step_ok:
  assumes "solver_ready S" "i < n_points S"
  shows "\<exists>t'. lap_time_step S i t = Inr t'"
  using assms by (simp add: lap_time_step_def solver_ready_def vectors_sized_def Let_def)

lemma solver_ready_v_accel:
  "solver_ready S \<Longrightarrow> length xs = n_points S \<Longrightarrow> solver_ready (S\<lparr>v_accel := xs\<rparr>)"
  by (simp add: solver_ready_def vectors_sized_def)

lemma solver_ready_v_brake:
  "solver_ready S \<Longrightarrow> length xs = n_points S \<Longrightarrow> solver_ready (S\<lparr>v_brake := xs\<rparr>)"
  by (simp add: solver_ready_def vectors_sized_def)

lemma solver_ready_v_corner:
  "solver_ready S \<Longrightarrow> length xs = n_points S \<Longrightarrow> solver_ready (S\<lparr>v_corner := xs\<rparr>)"
  by (simp add: solver_ready_def vectors_sized_def)

lemma solver_ready_v_optimal:
  "solver_ready S \<Longrightarrow> length xs = n_points S \<Longrightarrow> solver_ready (S\<lparr>v_optimal := xs\<rparr>)"
  by (simp add: solver_ready_def vectors_sized_def)

lemma forwardIntegration_ok:
  assumes "solver_ready S"
  shows "\<exists>xs. forwardIntegration S = Inr (S\<lparr>v_accel := xs\<rparr>) \<and> length xs = n_points S"
proof -
  define I where "I = (\<lambda>S'. \<exists>xs. S' = S\<lparr>v_accel := xs\<rparr> \<and> length xs = n_points S)"
  have n: "0 < n_points S" using assms unfolding solver_ready_def by blast
  have l: "length (v_accel S) = n_points S" using assms by (simp add: solver_ready_def vectors_sized_def)
  have step: "\<exists>S''. forward_step i S' = Inr S'' \<and> I S''" if "i \<in> set [0..<n_points S - 1]" "I S'" for i S'
  proof -
    from that(2) obtain xs where xs: "S' = S\<lparr>v_accel := xs\<rparr>" "length xs = n_points S" by (auto simp: I_def)
    have r: "solver_ready S'" unfolding xs(1) using assms xs(2) by (rule solver_ready_v_accel)
    have "i + 1 < n_points S'" using that(1) xs by auto
    from forward_step_ok[OF r this] obtain x where "forward_step i S' = Inr (S'\<lparr>v_accel := (v_accel S')[i + 1 := x]\<rparr>)"
      by blast
    then show ?thesis using xs by (auto simp: I_def)
  qed
  have "I S" unfolding I_def using l by (intro exI[of _ "v_accel S"]) simp
  from fold_err_inv[of "[0..<n_points S - 1]" I forward_step, OF step this]
  obtain S1 where S1: "fold_err forward_step [0..<n_points S - 1] S = Inr S1" "I S1" by blast
  from S1(2) obtain xs where xs: "S1 = S\<lparr>v_accel := xs\<rparr>" "length xs = n_points S" by (auto simp: I_def)
  have r: "solver_ready S1" unfolding xs(1) using assms xs(2) by (rule solver_ready_v_accel)
  from forward_closure_ok[OF r] obtain x where "forward_closure S1 = Inr (S1\<lparr>v_accel := (v_accel S1)[0 := x]\<rparr>)"
    by blast
  then show ?thesis
    unfolding forwardIntegration_def size_t_minus_1_pos[OF n] S1(1) using xs by auto
qed

lemma backwardIntegration_ok:
  assumes "solver_ready S"
  shows "\<exists>xs. backwardIntegration S = Inr (S\<lparr>v_brake := xs\<rparr>) \<and> length xs = n_points S"
proof -
  define I where "I = (\<lambda>S'. \<exists>xs. S' = S\<lparr>v_brake := xs\<rparr> \<and> length xs = n_points S)"
  have l: "length (v_brake S) = n_points S" using assms by (simp add: solver_ready_def vectors_sized_def)
  have step: "\<exists>S''. backward_step i S' = Inr S'' \<and> I S''" if "i \<in> set (rev [1..<n_points S])" "I S'" for i S'
  proof -
    from that(2) obtain xs where xs: "S' = S\<lparr>v_brake := xs\<rparr>" "length xs = n_points S" by (auto simp: I_def)
    have r: "solver_ready S'" unfolding xs(1) using assms xs(2) by (rule solver_ready_v_brake)
    have "0 < i" "i < n_points S'" using that(1) xs by auto
    from backward_step_ok[OF r this] obtain x where "backward_step i S' = Inr (S'\<lparr>v_brake := (v_brake S')[i - 1 := x]\<rparr>)"
      by blast
    then show ?thesis using xs by (auto simp: I_def)
  qed
  have "I S" unfolding I_def using l by (intro exI[of _ "v_brake S"]) simp
  from fold_err_inv[of "rev [1..<n_points S]" I backward_step, OF step this]
  obtain S1 where S1: "fold_err backward_step (rev [1..<n_points S]) S = Inr S1" "I S1" by blast
  from S1(2) obtain xs where xs: "S1 = S\<lparr>v_brake := xs\<rparr>" "length xs = n_points S" by (auto simp: I_def)
  have r: "solver_ready S1" unfolding xs(1) using assms xs(2) by (rule solver_ready_v_brake)
  from backward_closure_ok[OF r] obtain x where "backward_closure S1 = Inr (S1\<lparr>v_brake := (v_brake S1)[n_points S1 - 1 := x]\<rparr>)"
    by blast
  then show ?thesis
    unfolding backwardIntegration_def S1(1) using xs by auto
qed

lemma combine_prefix:
  assumes "vectors_sized S" "k \<le> n_points S"
  shows "\<exists>xs. fold_err combine_step [0..<k] S = Inr (S\<lparr>v_optimal := xs\<rparr>) \<and> length xs = n_points S \<and>
          (\<forall>i < k. xs ! i = min (v_corner S ! i) (min (v_accel S ! i) (v_brake S ! i)))"
  using assms(2)
proof (induction k)
  case 0
  show ?case using assms(1) by (intro exI[of _ "v_optimal S"]) (simp add: vectors_sized_def)
next
  case (Suc k)
  then obtain xs where xs: "fold_err combine_step [0..<k] S = Inr (S\<lparr>v_optimal := xs\<rparr>)"
    "length xs = n_points S" "\<forall>i < k. xs ! i = min (v_corner S ! i) (min (v_accel S ! i) (v_brake S ! i))"
    by auto
  have v: "vectors_sized (S\<lparr>v_optimal := xs\<rparr>)" using assms(1) xs(2) by (simp add: vectors_sized_def)
  have k: "k < n_points (S\<lparr>v_optimal := xs\<rparr>)" using Suc.prems by simp
  have "fold_err combine_step [0..<Suc k] S
      = Inr (S\<lparr>v_optimal := xs[k := min (v_corner S ! k) (min (v_accel S ! k) (v_brake S ! k))]\<rparr>)"
    unfolding fold_err_upt_Suc xs(1) err_bind_Inr combine_step_ok[OF v k] by simp
  moreover have "\<forall>i < Suc k. xs[k := min (v_corner S ! k) (min (v_accel S ! k) (v_brake S ! k))] ! i
      = min (v_corner S ! i) (min (v_accel S ! i) (v_brake S ! i))"
    using xs(2,3) Suc.prems by (auto simp: nth_list_update less_Suc_eq)
  ultimately show ?case using xs(2) by (intro exI[of _ "xs[k := min (v_corner S ! k) (min (v_accel S ! k) (v_brake S ! k))]"]) simp
qed

text \<open>
  C3. On a solver whose four vectors have \<open>n_points\<close> entries, \<open>combineProfiles\<close> runs
  without error, leaves \<open>v_corner\<close>, \<open>v_accel\<close> and \<open>v_brake\<close> as they are, and afterwards
  \<open>v_optimal[i]\<close> is the minimum of \<open>v_corner[i]\<close>, \<open>v_accel[i]\<close> and \<open>v_brake[i]\<close> for every
  \<open>i < n_points\<close>, hence at most each of them.
\<close>

theorem combineProfiles_min:
  assumes "vectors_sized S"
  shows "\<exists>S'. combineProfiles S = Inr S' \<and>
     v_corner S' = v_corner S \<and> v_accel S' = v_accel S \<and> v_brake S' = v_brake S \<and>
     n_points S' = n_points S \<and> length (v_optimal S') = n_points S \<and>
     (\<forall>i < n_points S.
        v_optimal S' ! i = Min {v_corner S' ! i, v_accel S' ! i, v_brake S' ! i} \<and>
        v_optimal S' ! i \<le> v_corner S' ! i \<and> v_optimal S' ! i \<le> v_accel S' ! i \<and>
        v_optimal S' ! i \<le> v_brake S' ! i)"
proof -
  from combine_prefix[OF assms, of "n_points S"] obtain xs where
    xs: "fold_err combine_step [0..<n_points S] S = Inr (S\<lparr>v_optimal := xs\<rparr>)" "length xs = n_points S"
    "\<forall>i < n_points S. xs ! i = min (v_corner S ! i) (min (v_accel S ! i) (v_brake S ! i))"
    by auto
  show ?thesis
    unfolding combineProfiles_def xs(1) using xs(2,3) by (simp add: min_le_iff_disj)
qed

lemma calculateCorneringLimit_ok:
  assumes "solver_ready S"
  shows "\<exists>xs. calculateCorneringLimit S = Inr (S\<lparr>v_corner := xs\<rparr>) \<and> length xs = n_points S"
proof -
  define I where "I = (\<lambda>S'. \<exists>xs. S' = S\<lparr>v_corner := xs\<rparr> \<and> length xs = n_points S)"
  have l: "length (v_corner S) = n_points S" using assms by (simp add: solver_ready_def vectors_sized_def)
  have step: "\<exists>S''. cornering_step i S' = Inr S'' \<and> I S''" if "i \<in> set [0..<n_points S]" "I S'" for i S'
  proof -
    from that(2) obtain xs where xs: "S' = S\<lparr>v_corner := xs\<rparr>" "length xs = n_points S" by (auto simp: I_def)
    have r: "solver_ready S'" unfolding xs(1) using assms xs(2) by (rule solver_ready_v_corner)
    have "i < n_points S'" using that(1) xs by auto
    from cornering_step_ok[OF r this] show ?thesis using xs by (auto simp: I_def)
  qed
  have "I S" unfolding I_def using l by (intro exI[of _ "v_corner S"]) simp
  from fold_err_inv[of "[0..<n_points S]" I cornering_step, OF step this]
  show ?thesis unfolding calculateCorneringLimit_def I_def by blast
qed

lemma init_loop_ok:
  assumes "solver_ready S"
  shows "\<exists>xs ys. fold_err (init_step v0) [0..<n_points S] S = Inr (S\<lparr>v_accel := xs, v_brake := ys\<rparr>)
          \<and> length xs = n_points S \<and> length ys = n_points S"
proof -
  define I where "I = (\<lambda>S'. \<exists>xs ys. S' = S\<lparr>v_accel := xs, v_brake := ys\<rparr> \<and> length xs = n_points S \<and> length ys = n_points S)"
  have l: "length (v_accel S) = n_points S" "length (v_brake S) = n_points S"
    using assms by (simp_all add: solver_ready_def vectors_sized_def)
  have step: "\<exists>S''. init_step v0 i S' = Inr S'' \<and> I S''" if "i \<in> set [0..<n_points S]" "I S'" for i S'
  proof -
    from that(2) obtain xs ys where xs: "S' = S\<lparr>v_accel := xs, v_brake := ys\<rparr>" "length xs = n_points S"
      "length ys = n_points S" by (auto simp: I_def)
    have r: "solver_ready S'" unfolding xs(1) using assms xs(2,3) by (simp add: solver_ready_def vectors_sized_def)
    have "i < n_points S'" using that(1) xs by auto
    from init_step_ok[OF r this, of v0]
    have e: "init_step v0 i S' = Inr (S\<lparr>v_accel := xs[i := min v0 (v_corner S ! i)],
                                           v_brake := ys[i := min v0 (v_corner S ! i)]\<rparr>)"
      by (simp add: xs(1))
    have "I (S\<lparr>v_accel := xs[i := min v0 (v_corner S ! i)], v_brake := ys[i := min v0 (v_corner S ! i)]\<rparr>)"
      unfolding I_def
      by (intro exI[of _ "xs[i := min v0 (v_corner S ! i)]"] exI[of _ "ys[i := min v0 (v_corner S ! i)]"])
        (simp add: xs(2,3))
    with e show ?thesis by blast
  qed
  have "I S" unfolding I_def using l by (intro exI[of _ "v_accel S"] exI[of _ "v_brake S"]) simp
  from fold_err_inv[of "[0..<n_points S]" I "init_step v0", OF step this]
  show ?thesis unfolding I_def by blast
qed

lemma calculateLapTime_ok:
  assumes "solver_ready S"
  shows "\<exists>t. calculateLapTime S = Inr t"
proof -
  have "\<exists>t'. lap_time_step S i t = Inr t' \<and> True" if "i \<in> set [0..<n_points S]" for i t
    using lap_time_step_ok[OF assms, of i t] that by simp
  from fold_err_inv[of "[0..<n_points S]" "\<lambda>_. True" "lap_time_step S", OF this]
  show ?thesis unfolding calculateLapTime_def by blast
qed

lemma combineProfiles_ok:
  assumes "solver_ready S"
  shows "\<exists>xs. combineProfiles S = Inr (S\<lparr>v_optimal := xs\<rparr>) \<and> length xs = n_points S"
proof -
  have "vectors_sized S" using assms by (simp add: solver_ready_def)
  from combine_prefix[OF this, of "n_points S"] show ?thesis
    unfolding combineProfiles_def by auto
qed

lemma solve_loop_ok:
  assumes "solver_ready S"
  shows "\<exists>S'. solve_loop k it tol prev S = Inr S' \<and>
           (if k = 0 then iterations_used S' = iterations_used S
            else it + 1 \<le> iterations_used S' \<and> iterations_used S' \<le> it + int k)"
  using assms
proof (induction k arbitrary: S it prev)
  case 0
  then show ?case by simp
next
  case (Suc k)
  define S0 where "S0 = S\<lparr>iterations_used := it + 1\<rparr>"
  have r0: "solver_ready S0" using Suc.prems by (simp add: S0_def solver_ready_def vectors_sized_def)
  from forwardIntegration_ok[OF r0] obtain xs where
    f: "forwardIntegration S0 = Inr (S0\<lparr>v_accel := xs\<rparr>)" "length xs = n_points S0" by blast
  have r1: "solver_ready (S0\<lparr>v_accel := xs\<rparr>)" using r0 f(2) by (rule solver_ready_v_accel)
  from backwardIntegration_ok[OF r1] obtain ys where
    b: "backwardIntegration (S0\<lparr>v_accel := xs\<rparr>) = Inr (S0\<lparr>v_accel := xs, v_brake := ys\<rparr>)"
    "length ys = n_points S0" by auto
  have r2: "solver_ready (S0\<lparr>v_accel := xs, v_brake := ys\<rparr>)"
    using solver_ready_v_brake[OF r1, of ys] b(2) by simp
  from combineProfiles_ok[OF r2] obtain zs where
    c: "combineProfiles (S0\<lparr>v_accel := xs, v_brake := ys\<rparr>) = Inr (S0\<lparr>v_accel := xs, v_brake := ys, v_optimal := zs\<rparr>)"
    "length zs = n_points S0" by auto
  define S3 where "S3 = S0\<lparr>v_accel := xs, v_brake := ys, v_optimal := zs\<rparr>"
  have r3: "solver_ready S3"
    using solver_ready_v_optimal[OF r2, of zs] c(2) by (simp add: S3_def)
  from calculateLapTime_ok[OF r3] obtain t where t: "calculateLapTime S3 = Inr t" by blast
  define S4 where "S4 = S3\<lparr>lap_time := t\<rparr>"
  have r4: "solver_ready S4" using r3 by (simp add: S4_def solver_ready_def vectors_sized_def)
  have i4: "iterations_used S4 = it + 1" by (simp add: S4_def S3_def S0_def)
  have e: "solve_loop (Suc k) it tol prev S
      = (if \<bar>t - prev\<bar> < tol then Inr (S4\<lparr>converged := True\<rparr>) else solve_loop k (it + 1) tol t S4)"
    unfolding solve_loop.simps S0_def[symmetric] f(1) err_bind_Inr b(1) c(1) S3_def[symmetric] t
    by (simp add: S4_def Let_def)
  show ?case
  proof (cases "\<bar>t - prev\<bar> < tol")
    case True
    then show ?thesis unfolding e using i4 by simp
  next
    case False
    from Suc.IH[OF r4, of "it + 1" t] obtain S' where
      S': "solve_loop k (it + 1) tol t S4 = Inr S'"
      "if k = 0 then iterations_used S' = iterations_used S4
       else it + 1 + 1 \<le> iterations_used S' \<and> iterations_used S' \<le> it + 1 + int k"
      by blast
    then show ?thesis unfolding e using False i4 by (cases "k = 0") auto
  qed
qed

lemma new_solver_ok:
  assumes "preprocessed T" "validate vp"
  shows "\<exists>S. new_QuasiSteadyStateSolver T vp = Inr S \<and> vectors_sized S \<and> n_points S = length (points T)
          \<and> track S = T \<and> vehicle S = vp"
proof -
  have "0 < tire_radius (tire vp)" using assms(2) unfolding validate_def by (auto split: if_splits)
  then show ?thesis using assms
    by (simp add: new_QuasiSteadyStateSolver_def new_GGVGenerator_def new_PowertrainModel_def vectors_sized_def)
qed

lemma solve_ok:
  assumes "vectors_sized S" "length (points (track S)) = n_points S" "0 < n_points S" "1 \<le> mi"
  shows "\<exists>t S'. solve S mi tol = Some (Inr (t, S')) \<and> t = lap_time S' \<and>
           1 \<le> iterations_used S' \<and> iterations_used S' \<le> mi"
proof -
  obtain G where G: "generate (ggv S) 0 120 0.5 50 1 = Some G" "grid_ready G"
    using generate_grid_ready[of "ggv S"] by blast
  define S0 where "S0 = S\<lparr>ggv := G\<rparr>"
  have i: "initialize S = Some S0" unfolding initialize_def Let_def G(1) by (simp add: S0_def)
  have r0: "solver_ready S0" using assms(1-3) G(2) by (simp add: S0_def solver_ready_def vectors_sized_def)
  from calculateCorneringLimit_ok[OF r0] obtain cs where
    c: "calculateCorneringLimit S0 = Inr (S0\<lparr>v_corner := cs\<rparr>)" "length cs = n_points S0" by blast
  define S1 where "S1 = S0\<lparr>v_corner := cs\<rparr>"
  have r1: "solver_ready S1" unfolding S1_def using r0 c(2) by (rule solver_ready_v_corner)
  from init_loop_ok[OF r1, of 50] obtain xs ys where
    l: "fold_err (init_step 50) [0..<n_points S1] S1 = Inr (S1\<lparr>v_accel := xs, v_brake := ys\<rparr>)"
    "length xs = n_points S1" "length ys = n_points S1" by blast
  define S2 where "S2 = S1\<lparr>v_accel := xs, v_brake := ys, converged := False\<rparr>"
  have r2: "solver_ready S2" using r1 l(2,3) by (simp add: S2_def solver_ready_def vectors_sized_def)
  have k: "nat mi \<noteq> 0" using assms(4) by simp
  from solve_loop_ok[OF r2, of "nat mi" 0 tol 1000000000] k obtain S' where
    S': "solve_loop (nat mi) 0 tol 1000000000 S2 = Inr S'"
    "0 + 1 \<le> iterations_used S' \<and> iterations_used S' \<le> 0 + int (nat mi)"
    by auto
  have "solve S mi tol = Some (Inr (lap_time S', S'))"
    unfolding solve_def i using c(1) l(1) S'(1)
    by (simp add: S1_def[symmetric] Let_def S2_def)
  then show ?thesis using S'(2) assms(4) by simp
qed

text \<open>
  Control flow of \<open>solve\<close>. For a preprocessed track of at least 3 points, a vehicle
  that passes \<open>validate\<close> and \<open>max_iterations \<ge> 1\<close>, the constructor returns a solver and
  \<open>solve\<close> on it returns: the GGV generation loops stop, no exception is thrown, no
  vector index is out of range and no cast is undefined; the value returned is the
  \<open>lap_time\<close> field and the number of iterations used is between 1 and
  \<open>max_iterations\<close>. Whether the \<open>double\<close> returned is finite is a property of IEEE
  arithmetic (overflow of \<open>dx * dx\<close> in \<open>calculateArcLength\<close> gives an infinite \<open>ds\<close>
  and an infinite lap time); a model over \<open>real\<close> cannot express it, and this lemma
  says nothing about it.
\<close>

lemma solve_returns:
  assumes "preprocessed T" "3 \<le> length (points T)" "validate vp" "1 \<le> max_iterations"
  shows "\<exists>S t S'. new_QuasiSteadyStateSolver T vp = Inr S \<and>
           solve S max_iterations tolerance = Some (Inr (t, S')) \<and> t = lap_time S' \<and>
           1 \<le> iterations_used S' \<and> iterations_used S' \<le> max_iterations"
proof -
  from new_solver_ok[OF assms(1,3)] obtain S where
    S: "new_QuasiSteadyStateSolver T vp = Inr S" "vectors_sized S" "n_points S = length (points T)" "track S = T"
    by blast
  have "length (points (track S)) = n_points S" "0 < n_points S" using S(3,4) assms(2) by auto
  from solve_ok[OF S(2) this assms(4), of tolerance] S(1) show ?thesis by blast
qed

theorem solveCorneringVelocity_spec_witness:
  "\<exists>T S. preprocess example_track = Inr T \<and> new_QuasiSteadyStateSolver T example_vehicle = Inr S \<and>
     validate (vehicle S) \<and>
     solveCorneringVelocity S 0.001 = 110 \<and> solveCorneringVelocity S 0.003 = 100 \<and>
     solveCorneringVelocity S (- 0.01) = sqrt (12556.8 / 3.59)"
proof -
  obtain T where T: "preprocess example_track = Inr T" "preprocessed T"
    using example_track_preprocessed by blast
  from new_solver_ok[OF T(2) validate_example_vehicle] obtain S where
    S: "new_QuasiSteadyStateSolver T example_vehicle = Inr S" "vehicle S = example_vehicle" by blast
  have v: "validate (vehicle S)" using S(2) validate_example_vehicle by simp
  have "solveCorneringVelocity S 0.001 = 110" "solveCorneringVelocity S 0.003 = 100"
    "solveCorneringVelocity S (- 0.01) = sqrt (12556.8 / 3.59)"
    using solveCorneringVelocity_spec[OF v, of "0.001"] solveCorneringVelocity_spec[OF v, of "0.003"]
      solveCorneringVelocity_spec[OF v, of "- 0.01"]
    by (simp_all add: S(2) example_vehicle_def default_MassParams_def default_AeroParams_def
        default_TireParams_def GRAVITY_def)
  with T(1) S(1) v show ?thesis by blast
qed

theorem combineProfiles_min_witness:
  "vectors_sized example_profiles \<and>
   (\<exists>S'. combineProfiles example_profiles = Inr S' \<and>
      v_optimal S' ! 0 = 50 \<and> v_optimal S' ! 1 = 40 \<and> v_optimal S' ! 2 = 30)"
proof -
  have v: "vectors_sized example_profiles"
    by (simp add: vectors_sized_def example_profiles_def)
  from combineProfiles_min[OF v] obtain S' where
    S': "combineProfiles example_profiles = Inr S'"
    "v_corner S' = v_corner example_profiles" "v_accel S' = v_accel example_profiles"
    "v_brake S' = v_brake example_profiles"
    "\<forall>i < n_points example_profiles.
        v_optimal S' ! i = Min {v_corner S' ! i, v_accel S' ! i, v_brake S' ! i}"
    by blast
  have n: "n_points example_profiles = 3" by (simp add: example_profiles_def)
  from S'(5)[rule_format, of 0] S'(5)[rule_format, of 1] S'(5)[rule_format, of 2]
  have "v_optimal S' ! 0 = 50 \<and> v_optimal S' ! 1 = 40 \<and> v_optimal S' ! 2 = 30"
    unfolding S'(2,3,4) n by (simp add: example_profiles_def)
  with v S'(1) show ?thesis by blast
qed

lemma solve_returns_example:
  "\<exists>T S t S'. preprocess example_track = Inr T \<and> preprocessed T \<and> 3 \<le> length (points T) \<and>
     validate example_vehicle \<and> new_QuasiSteadyStateSolver T example_vehicle = Inr S \<and>
     solve S 10 0.001 = Some (Inr (t, S')) \<and> t = lap_time S' \<and>
     1 \<le> iterations_used S' \<and> iterations_used S' \<le> 10"
proof -
  obtain T where T: "preprocess example_track = Inr T" "preprocessed T" "length (points T) = 3"
    using example_track_preprocessed by blast
  have l: "3 \<le> length (points T)" using T(3) by simp
  have m: "(1::int) \<le> 10" by simp
  from solve_returns[OF T(2) l validate_example_vehicle m, of "0.001"] T validate_example_vehicle l
  show ?thesis by blast
qed

end
